theory Spec2Isabelle
  imports Main "HOL-Library.AList" "HOL-Library.Sublist"
begin

section \<open>Values carried by messages\<close>

text \<open>
  The payload of a message event (\<open>e.data\<close>) and every command field is a JavaScript
  value. The model covers \<open>undefined\<close> and the JSON values: \<open>null\<close>, booleans, numbers,
  strings, arrays and plain objects. A number is carried by the text that \<open>String(n)\<close>
  gives it (\<open>42\<close>, \<open>-1.5\<close>, \<open>1e+21\<close>, \<open>NaN\<close>, \<open>Infinity\<close>; both zeros give \<open>0\<close>): the
  program asks of a number only whether it is truthy, what string it converts to and
  what JSON keeps of it, and the text decides all three. An object is the list of its
  own enumerable properties in the order they are enumerated (array indices first, in
  ascending order, then the other keys in the order they were created); a lookup takes
  the first entry of a key.
\<close>

datatype jsval =
    JUndefined
  | JNull
  | JBool bool
  | JNum string
  | JStr string
  | JArr "jsval list"
  | JObj "(string \<times> jsval) list"

text \<open>
  The test \<open>if (v)\<close>: \<open>undefined\<close>, \<open>null\<close>, \<open>false\<close>, the zeros, \<open>NaN\<close> and the empty
  string are falsy.
\<close>

fun truthy :: "jsval \<Rightarrow> bool" where
  "truthy JUndefined = False"
| "truthy JNull = False"
| "truthy (JBool b) = b"
| "truthy (JNum n) = (n \<noteq> ''0'' \<and> n \<noteq> ''NaN'')"
| "truthy (JStr s) = (s \<noteq> [])"
| "truthy (JArr xs) = True"
| "truthy (JObj kvs) = True"

text \<open>The test \<open>typeof v === 'object'\<close>: objects, arrays and \<open>null\<close>.\<close>

fun typeofObject :: "jsval \<Rightarrow> bool" where
  "typeofObject JNull = True"
| "typeofObject (JArr xs) = True"
| "typeofObject (JObj kvs) = True"
| "typeofObject v = False"

text \<open>The decimal digits of an array index, as the key of the element.\<close>

definition digitChar :: "nat \<Rightarrow> char" where
  "digitChar d = (''0123456789'' ! (d mod 10))"

function showNat :: "nat \<Rightarrow> string" where
  "showNat n = (if n < 10 then [digitChar n] else showNat (n div 10) @ [digitChar (n mod 10)])"
  by pat_completeness auto
termination
  by (relation "measure (\<lambda>n. n)") auto

declare showNat.simps [simp del]

fun joinComma :: "string list \<Rightarrow> string" where
  "joinComma [] = []"
| "joinComma [s] = s"
| "joinComma (s # t # ts) = s @ '','' @ joinComma (t # ts)"

text \<open>An error object: \<open>new Error(message)\<close>, or a \<open>TypeError\<close> the language throws.\<close>

datatype jserror = Error string | TypeError string

fun errorMessage :: "jserror \<Rightarrow> string" where
  "errorMessage (Error m) = m"
| "errorMessage (TypeError m) = m"

text \<open>
  The conversion to a string that \<open>new Error(v)\<close> applies to its argument and that a
  computed member access \<open>table[v]\<close> applies to its key. An array joins its elements
  with commas, from left to right (\<open>null\<close> and \<open>undefined\<close> elements print as
  nothing). A plain object prints as \<open>[object Object]\<close> through the \<open>toString\<close> it
  inherits; an own property named \<open>toString\<close> hides that method and, in a message, is
  no function, and then neither it nor \<open>valueOf\<close> yields a primitive: the conversion
  throws a \<open>TypeError\<close> (with the message V8 gives it).
\<close>

definition notPrimitive :: jserror where
  "notPrimitive = TypeError ''Cannot convert object to primitive value''"

fun toStr :: "jsval \<Rightarrow> jserror + string"
and toStrs :: "jsval list \<Rightarrow> jserror + string list" where
  "toStr JUndefined = Inr ''undefined''"
| "toStr JNull = Inr ''null''"
| "toStr (JBool b) = Inr (if b then ''true'' else ''false'')"
| "toStr (JNum n) = Inr n"
| "toStr (JStr s) = Inr s"
| "toStr (JArr xs) = (case toStrs xs of Inl e \<Rightarrow> Inl e | Inr ss \<Rightarrow> Inr (joinComma ss))"
| "toStr (JObj kvs) =
     (if ''toString'' \<in> set (map fst kvs) then Inl notPrimitive else Inr ''[object Object]'')"
| "toStrs [] = Inr []"
| "toStrs (x # xs) =
     (case (if x = JUndefined \<or> x = JNull then Inr [] else toStr x) of
        Inl e \<Rightarrow> Inl e
      | Inr s \<Rightarrow> (case toStrs xs of Inl e \<Rightarrow> Inl e | Inr ss \<Rightarrow> Inr (s # ss)))"

text \<open>
  The own enumerable properties of a value that passed the \<open>typeof\<close> test: the entries
  of an object, the indexed elements of an array.
\<close>

fun ownFields :: "jsval \<Rightarrow> (string \<times> jsval) list" where
  "ownFields (JObj kvs) = kvs"
| "ownFields (JArr xs) = zip (map showNat [0..<length xs]) xs"
| "ownFields v = []"

text \<open>
  Reading a property \<open>d.k\<close> of an object or array, for the names the handler reads
  (\<open>id\<close>, \<open>message\<close>, \<open>error\<close>, \<open>time\<close>, \<open>tool\<close>, \<open>elementIds\<close>, \<open>state\<close>): none of
  them is defined on a prototype, so an absent own property reads as \<open>undefined\<close>.
\<close>

definition getField :: "jsval \<Rightarrow> string \<Rightarrow> jsval" where
  "getField d k = (case map_of (ownFields d) k of Some v \<Rightarrow> v | None \<Rightarrow> JUndefined)"

text \<open>The rest pattern of \<open>const { id, message, error, ...args } = e.data\<close>.\<close>

definition restFields :: "jsval \<Rightarrow> jsval" where
  "restFields d =
     JObj (filter (\<lambda>kv. fst kv \<notin> {''id'', ''message'', ''error''}) (ownFields d))"

text \<open>
  \<open>JSON.parse(JSON.stringify(v))\<close>: object properties whose value is \<open>undefined\<close> are
  dropped, \<open>undefined\<close> array elements become \<open>null\<close>, and so do the numbers that are
  not finite.
\<close>

fun jsonClone :: "jsval \<Rightarrow> jsval" where
  "jsonClone (JObj kvs) =
     JObj (map (\<lambda>kv. (fst kv, jsonClone (snd kv))) (filter (\<lambda>kv. snd kv \<noteq> JUndefined) kvs))"
| "jsonClone (JArr xs) = JArr (map (\<lambda>x. if x = JUndefined then JNull else jsonClone x) xs)"
| "jsonClone (JNum n) = (if n \<in> {''NaN'', ''Infinity'', ''-Infinity''} then JNull else JNum n)"
| "jsonClone v = v"

text \<open>
  An array index as a property key: the decimal digits, without a leading zero, of a
  number below \<open>2^32 - 1\<close>.
\<close>

definition readNat :: "string \<Rightarrow> nat" where
  "readNat k = foldl (\<lambda>n c. 10 * n + (of_char c - 48)) 0 k"

definition arrayIndex :: "string \<Rightarrow> nat option" where
  "arrayIndex k =
     (if k \<noteq> [] \<and> list_all (\<lambda>c. c \<in> set ''0123456789'') k
         \<and> (length k = 1 \<or> hd k \<noteq> CHR ''0'') \<and> readNat k < 4294967295
      then Some (readNat k) else None)"

text \<open>
  The order in which the own properties of an object are enumerated: the array
  indices in ascending order, then the other keys in the order they were created.
\<close>

definition enumerationOrder :: "(string \<times> 'a) list \<Rightarrow> (string \<times> 'a) list" where
  "enumerationOrder kvs =
     sort_key (\<lambda>kv. case arrayIndex (fst kv) of Some n \<Rightarrow> n | None \<Rightarrow> 0)
       (filter (\<lambda>kv. arrayIndex (fst kv) \<noteq> None) kvs)
     @ filter (\<lambda>kv. arrayIndex (fst kv) = None) kvs"

text \<open>
  Object spread \<open>{ ...a, ...b }\<close>: the properties are created in the order written, a
  key of \<open>b\<close> already present takes the new value, and the object made enumerates them
  in the order above.
\<close>

definition spread :: "(string \<times> jsval) list \<Rightarrow> (string \<times> jsval) list \<Rightarrow> (string \<times> jsval) list" where
  "spread a b = enumerationOrder (foldl (\<lambda>acc kv. AList.update (fst kv) (snd kv) acc) a b)"

section \<open>The renderer and its surroundings\<close>

datatype Mode = Player | Interactive

fun modeName :: "Mode \<Rightarrow> string" where
  "modeName Player = ''player''"
| "modeName Interactive = ''interactive''"

text \<open>
  A future created by \<open>new Promise\<close> in \<open>_sendCommand\<close>. The futures chained on it by
  the public methods are functions of its outcome (\<open>wrapperOutcome\<close> below).
\<close>

datatype promiseState = Pending | Fulfilled jsval | Rejected jserror

text \<open>The nine optional event hooks of the class.\<close>

datatype callback =
    OnReady | OnLoad | OnLoadComplete | OnPlay | OnPause
  | OnTimeChange | OnToolChange | OnActiveElementsChange | OnStateChange

text \<open>
  One \<open>Renderer\<close> instance with the parts of the page it touches. The hooks are user
  code, opaque here: a field says whether the hook is assigned. \<open>pendingPromises\<close> is
  the table \<open>_pendingPromises\<close>; an entry holds the index, in the store \<open>promises\<close>, of
  the future whose \<open>resolve\<close> and \<open>reject\<close> it keeps. \<open>iframeParent\<close> says whether the
  iframe is still a child of the container, \<open>contentWindow\<close> whether
  \<open>_iframe.contentWindow\<close> is non-null, \<open>listening\<close> whether \<open>_handleMessage\<close> is
  registered on the window.
\<close>

record rendererFields =
  onReady :: bool
  onLoad :: bool
  onLoadComplete :: bool
  onPlay :: bool
  onPause :: bool
  onTimeChange :: bool
  onToolChange :: bool
  onActiveElementsChange :: bool
  onStateChange :: bool
  mode :: Mode
  ready :: bool
  state :: jsval
  iframeSrc :: string
  iframeDisplay :: string
  iframeParent :: bool
  contentWindow :: bool
  listening :: bool
  pendingPromises :: "(string \<times> nat) list"
  promises :: "promiseState list"

text \<open>
  What the wrapper does to the outside, in the order it happens: a message posted to
  the iframe's window, a hook called with its arguments, an exception that leaves the
  message listener uncaught. The call of a hook records the instance as the hook finds
  it at that moment.
\<close>

datatype effect =
    PostMessage jsval
  | Invoke callback "jsval list" rendererFields
  | Uncaught jserror

record renderer = rendererFields +
  effects :: "effect list"

text \<open>
  The constructor. \<open>connected\<close> says whether the container is part of the document,
  which is when the appended iframe gets a window.
\<close>

definition newRenderer :: "bool \<Rightarrow> Mode \<Rightarrow> string \<Rightarrow> renderer" where
  "newRenderer connected m publicToken =
     \<lparr> onReady = False, onLoad = False, onLoadComplete = False, onPlay = False,
       onPause = False, onTimeChange = False, onToolChange = False,
       onActiveElementsChange = False, onStateChange = False,
       mode = m,
       ready = False,
       state = JUndefined,
       iframeSrc = ''https://creatomate.com/embed?mode='' @ modeName m @ ''&token='' @ publicToken,
       iframeDisplay = ''none'',
       iframeParent = True,
       contentWindow = connected,
       listening = True,
       pendingPromises = [],
       promises = [],
       effects = [] \<rparr>"

definition dispose :: "renderer \<Rightarrow> renderer" where
  "dispose r =
     r\<lparr> listening := False,
        iframeParent := False,
        contentWindow := False,
        iframeSrc := [],
        pendingPromises := [] \<rparr>"

subsection \<open>Sending a command\<close>

definition notReadyMessage :: string where
  "notReadyMessage =
     ''The SDK is not yet ready. Please wait for the onReady event before calling any methods.''"

text \<open>
  \<open>_sendCommand\<close>. The argument \<open>u\<close> is the string that the call of \<open>uuid()\<close> returns.
  The result is the renderer after the call, with the thrown error or the index of the
  returned future.
\<close>

definition sendCommand ::
  "renderer \<Rightarrow> string \<Rightarrow> (string \<times> jsval) list \<Rightarrow> (string \<times> jsval) list option
     \<Rightarrow> renderer \<times> (jserror + nat)" where
  "sendCommand r u message payload =
     (if \<not> ready r then (r, Inl (Error notReadyMessage))
      else
        let body = spread (spread [(''id'', JStr u)] (ownFields (jsonClone (JObj message))))
                     (case payload of None \<Rightarrow> [] | Some pl \<Rightarrow> pl);
            r1 = (if contentWindow r
                  then r\<lparr>effects := effects r @ [PostMessage (JObj body)]\<rparr>
                  else r);
            p = length (promises r1)
        in (r1\<lparr>promises := promises r1 @ [Pending],
                pendingPromises := AList.update u p (pendingPromises r1)\<rparr>,
            Inr p))"

text \<open>
  The part of \<open>setMode\<close> that runs before its \<open>await\<close>: the call of \<open>_sendCommand\<close>.
\<close>

definition setMode :: "renderer \<Rightarrow> string \<Rightarrow> Mode \<Rightarrow> renderer \<times> (jserror + nat)" where
  "setMode r u m =
     sendCommand r u [(''message'', JStr ''setMode''), (''mode'', JStr (modeName m))] None"

text \<open>
  The public command methods chain \<open>.catch((error) => { throw new Error(`Failed to ...:
  ${error.message}`) })\<close> on the future of \<open>_sendCommand\<close>.
\<close>

datatype command =
    SetMode | LoadTemplate | SetSource | SetModifications | ApplyModifications
  | Undo | Redo | SetTool | SetActiveElements | SetTime | Play | Pause | CacheAsset

fun failurePrefix :: "command \<Rightarrow> string" where
  "failurePrefix SetMode = ''Failed to set mode: ''"
| "failurePrefix LoadTemplate = ''Failed to load template: ''"
| "failurePrefix SetSource = ''Failed to set source: ''"
| "failurePrefix SetModifications = ''Failed to set modifications: ''"
| "failurePrefix ApplyModifications = ''Failed to apply modifications: ''"
| "failurePrefix Undo = ''Failed to undo: ''"
| "failurePrefix Redo = ''Failed to redo: ''"
| "failurePrefix SetTool = ''Failed to set tool: ''"
| "failurePrefix SetActiveElements = ''Failed to set active elements: ''"
| "failurePrefix SetTime = ''Failed to set time: ''"
| "failurePrefix Play = ''Failed to play: ''"
| "failurePrefix Pause = ''Failed to pause: ''"
| "failurePrefix CacheAsset = ''Failed to cache asset: ''"

definition catchHandler :: "command \<Rightarrow> jserror \<Rightarrow> jserror" where
  "catchHandler c e = Error (failurePrefix c @ errorMessage e)"

text \<open>
  The methods that \<open>await\<close> the chained future and return nothing, against those that
  return it.
\<close>

fun returnsNothing :: "command \<Rightarrow> bool" where
  "returnsNothing SetMode = True"
| "returnsNothing LoadTemplate = True"
| "returnsNothing SetSource = True"
| "returnsNothing SetTool = True"
| "returnsNothing SetActiveElements = True"
| "returnsNothing c = False"

text \<open>
  How the future a public method returns settles, from how the future of
  \<open>_sendCommand\<close> settled.
\<close>

fun wrapperOutcome :: "command \<Rightarrow> promiseState \<Rightarrow> promiseState" where
  "wrapperOutcome c Pending = Pending"
| "wrapperOutcome c (Fulfilled v) = Fulfilled (if returnsNothing c then JUndefined else v)"
| "wrapperOutcome c (Rejected e) = Rejected (catchHandler c e)"

subsection \<open>Handling a message\<close>

text \<open>
  Calling \<open>resolve\<close> or \<open>reject\<close> of a future: only a pending future changes.
\<close>

definition settle :: "promiseState list \<Rightarrow> nat \<Rightarrow> promiseState \<Rightarrow> promiseState list" where
  "settle ps p s = (if p < length ps \<and> ps ! p = Pending then ps[p := s] else ps)"

text \<open>
  The table is a plain object (\<open>{}\<close>), so \<open>table[key]\<close> finds an own entry first and
  then the properties every plain object inherits from \<open>Object.prototype\<close>. Each of
  those is a function or an object: truthy, and with neither a \<open>resolve\<close> nor a
  \<open>reject\<close> method, so that calling the method throws a \<open>TypeError\<close> (with the
  message V8 gives it) before the entry is deleted.
\<close>

definition objectPrototypeKeys :: "string list" where
  "objectPrototypeKeys =
     [''constructor'', ''__defineGetter__'', ''__defineSetter__'', ''hasOwnProperty'',
      ''__lookupGetter__'', ''__lookupSetter__'', ''isPrototypeOf'',
      ''propertyIsEnumerable'', ''toString'', ''valueOf'', ''__proto__'',
      ''toLocaleString'']"

datatype 'a lookup = Own 'a | Inherited | Missing

definition lookupProperty :: "(string \<times> 'a) list \<Rightarrow> string \<Rightarrow> 'a lookup" where
  "lookupProperty table k =
     (case map_of table k of
        Some v \<Rightarrow> Own v
      | None \<Rightarrow> if k \<in> set objectPrototypeKeys then Inherited else Missing)"

text \<open>Calling a hook, and an exception thrown out of the listener.\<close>

definition invoke :: "callback \<Rightarrow> jsval list \<Rightarrow> renderer \<Rightarrow> renderer" where
  "invoke c args r = r\<lparr>effects := effects r @ [Invoke c args (rendererFields.truncate r)]\<rparr>"

definition uncaught :: "jserror \<Rightarrow> renderer \<Rightarrow> renderer" where
  "uncaught e r = r\<lparr>effects := effects r @ [Uncaught e]\<rparr>"

text \<open>
  The branch \<open>if (id)\<close> of \<open>_handleMessage\<close>: a reply. The key of the lookup is the
  identifier converted to a string, which can throw. In \<open>pendingPromise.reject(new
  Error(error))\<close> the argument is evaluated, and its conversion can throw, before the
  call is made; whatever throws leaves the listener before the entry is deleted.
\<close>

definition handleReply :: "renderer \<Rightarrow> jsval \<Rightarrow> jsval \<Rightarrow> jsval \<Rightarrow> renderer" where
  "handleReply r ident error args =
     (case toStr ident of
        Inl e \<Rightarrow> uncaught e r
      | Inr key \<Rightarrow>
          (case lookupProperty (pendingPromises r) key of
             Missing \<Rightarrow> r
           | Inherited \<Rightarrow>
               (if truthy error then
                  (case toStr error of
                     Inl e \<Rightarrow> uncaught e r
                   | Inr m \<Rightarrow> uncaught (TypeError ''pendingPromise.reject is not a function'') r)
                else uncaught (TypeError ''pendingPromise.resolve is not a function'') r)
           | Own p \<Rightarrow>
               (if truthy error then
                  (case toStr error of
                     Inl e \<Rightarrow> uncaught e r
                   | Inr m \<Rightarrow>
                       r\<lparr>promises := settle (promises r) p (Rejected (Error m)),
                         pendingPromises := AList.delete key (pendingPromises r)\<rparr>)
                else
                  r\<lparr>promises := settle (promises r) p (Fulfilled args),
                    pendingPromises := AList.delete key (pendingPromises r)\<rparr>)))"

text \<open>The \<open>switch (message)\<close> of \<open>_handleMessage\<close>: an event.\<close>

definition handleEvent :: "renderer \<Rightarrow> string \<Rightarrow> jsval \<Rightarrow> jsval \<Rightarrow> renderer" where
  "handleEvent r u message args =
     (if message = JStr ''onReady'' then
        let r1 = r\<lparr>ready := True\<rparr>;
            r2 = fst (setMode r1 u (mode r1))
        in if onReady r2 then invoke OnReady [] r2 else r2
      else if message = JStr ''onLoad'' then
        (if onLoad r then invoke OnLoad [] r else r)
      else if message = JStr ''onLoadComplete'' then
        (if onLoadComplete r then invoke OnLoadComplete [] r else r)
      else if message = JStr ''onPlay'' then
        (if onPlay r then invoke OnPlay [] r else r)
      else if message = JStr ''onPause'' then
        (if onPause r then invoke OnPause [] r else r)
      else if message = JStr ''onTimeChange'' then
        (if onTimeChange r then invoke OnTimeChange [getField args ''time''] r else r)
      else if message = JStr ''onToolChange'' then
        (if onToolChange r then invoke OnToolChange [getField args ''tool''] r else r)
      else if message = JStr ''onActiveElementsChange'' then
        (if onActiveElementsChange r
         then invoke OnActiveElementsChange [getField args ''elementIds''] r else r)
      else if message = JStr ''onStateChange'' then
        let r1 = r\<lparr>state := getField args ''state''\<rparr>
        in if onStateChange r1 then invoke OnStateChange [getField args ''state''] r1 else r1
      else r)"

text \<open>
  \<open>_handleMessage\<close>, on the payload \<open>d\<close> of the event. \<open>u\<close> is the string \<open>uuid()\<close>
  returns if the handler sends a command.
\<close>

definition handleMessage :: "renderer \<Rightarrow> string \<Rightarrow> jsval \<Rightarrow> renderer" where
  "handleMessage r u d =
     (if \<not> truthy d \<or> \<not> typeofObject d then r
      else
        let ident = getField d ''id'';
            message = getField d ''message'';
            error = getField d ''error'';
            args = restFields d
        in if truthy ident then handleReply r ident error args
           else handleEvent r u message args)"

text \<open>The window calls the handler only while it is registered.\<close>

definition deliver :: "renderer \<Rightarrow> string \<Rightarrow> jsval \<Rightarrow> renderer" where
  "deliver r u d = (if listening r then handleMessage r u d else r)"

subsection \<open>Identifiers and the pending table over a run\<close>

text \<open>
  \<open>uuid()\<close> is the version 4 generator of the \<open>uuid\<close> package: it returns 36
  characters, lower-case hexadecimal digits in groups of 8, 4, 4, 4 and 12 separated by
  hyphens.
\<close>

definition hexDigit :: "char \<Rightarrow> bool" where
  "hexDigit c \<longleftrightarrow> c \<in> set ''0123456789abcdef''"

definition uuidPattern :: "char \<Rightarrow> char" where
  "uuidPattern c =
     (if hexDigit c then CHR ''x'' else if c = CHR ''-'' then CHR ''-'' else CHR ''?'')"

definition isUuid :: "string \<Rightarrow> bool" where
  "isUuid s \<longleftrightarrow> map uuidPattern s = ''xxxxxxxx-xxxx-xxxx-xxxx-xxxxxxxxxxxx''"

text \<open>
  The shape of the pending table in every state the class reaches: one entry per
  identifier, every identifier drawn from \<open>uuid()\<close>, no future held by two entries, and
  every future an entry holds still pending.
\<close>

definition pendingWellFormed :: "renderer \<Rightarrow> bool" where
  "pendingWellFormed r \<longleftrightarrow>
     distinct (map fst (pendingPromises r)) \<and>
     distinct (map snd (pendingPromises r)) \<and>
     list_all (\<lambda>kp. isUuid (fst kp) \<and> snd kp < length (promises r)
                     \<and> promises r ! snd kp = Pending)
       (pendingPromises r)"

text \<open>
  What can happen to an instance: the window delivers a message, a command is sent,
  \<open>dispose\<close> is called, user code assigns or clears a hook, and \<open>loadTemplate\<close> or
  \<open>setSource\<close> shows the iframe after its command succeeded. No method of the class
  writes the field \<open>mode\<close> after the constructor: \<open>setMode\<close> sends the command and
  leaves the field as it is.
\<close>

datatype action =
    Deliver string jsval
  | Command string "(string \<times> jsval) list" "(string \<times> jsval) list option"
  | Dispose
  | Assign callback bool
  | ShowIframe

fun assign :: "callback \<Rightarrow> bool \<Rightarrow> renderer \<Rightarrow> renderer" where
  "assign OnReady b r = r\<lparr>onReady := b\<rparr>"
| "assign OnLoad b r = r\<lparr>onLoad := b\<rparr>"
| "assign OnLoadComplete b r = r\<lparr>onLoadComplete := b\<rparr>"
| "assign OnPlay b r = r\<lparr>onPlay := b\<rparr>"
| "assign OnPause b r = r\<lparr>onPause := b\<rparr>"
| "assign OnTimeChange b r = r\<lparr>onTimeChange := b\<rparr>"
| "assign OnToolChange b r = r\<lparr>onToolChange := b\<rparr>"
| "assign OnActiveElementsChange b r = r\<lparr>onActiveElementsChange := b\<rparr>"
| "assign OnStateChange b r = r\<lparr>onStateChange := b\<rparr>"

fun step :: "renderer \<Rightarrow> action \<Rightarrow> renderer" where
  "step r (Deliver u d) = deliver r u d"
| "step r (Command u message payload) = fst (sendCommand r u message payload)"
| "step r Dispose = dispose r"
| "step r (Assign c b) = assign c b r"
| "step r ShowIframe = r\<lparr>iframeDisplay := []\<rparr>"

definition run :: "renderer \<Rightarrow> action list \<Rightarrow> renderer" where
  "run r acts = foldl step r acts"

fun uuidAction :: "action \<Rightarrow> bool" where
  "uuidAction (Deliver u d) = isUuid u"
| "uuidAction (Command u message payload) = isUuid u"
| "uuidAction a = True"

text \<open>
  The cases of the \<open>switch\<close> in \<open>_handleMessage\<close>: the event name of each case
  with the hook it guards, and the case a message selects.
\<close>

definition eventCallbacks :: "(string \<times> callback) list" where
  "eventCallbacks =
     [(''onReady'', OnReady), (''onLoad'', OnLoad), (''onLoadComplete'', OnLoadComplete),
      (''onPlay'', OnPlay), (''onPause'', OnPause), (''onTimeChange'', OnTimeChange),
      (''onToolChange'', OnToolChange), (''onActiveElementsChange'', OnActiveElementsChange),
      (''onStateChange'', OnStateChange)]"

definition callbackNamed :: "jsval \<Rightarrow> callback option" where
  "callbackNamed message =
     (case message of JStr name \<Rightarrow> map_of eventCallbacks name | _ \<Rightarrow> None)"

text \<open>Whether user code has assigned the hook.\<close>

fun hookAssigned :: "callback \<Rightarrow> renderer \<Rightarrow> bool" where
  "hookAssigned OnReady r = onReady r"
| "hookAssigned OnLoad r = onLoad r"
| "hookAssigned OnLoadComplete r = onLoadComplete r"
| "hookAssigned OnPlay r = onPlay r"
| "hookAssigned OnPause r = onPause r"
| "hookAssigned OnTimeChange r = onTimeChange r"
| "hookAssigned OnToolChange r = onToolChange r"
| "hookAssigned OnActiveElementsChange r = onActiveElementsChange r"
| "hookAssigned OnStateChange r = onStateChange r"

section \<open>The element tree\<close>

text \<open>
  A node of the state: the object \<open>{ source, elements? }\<close> that \<open>findElement\<close> takes,
  which a \<open>RendererState\<close> and an \<open>ElementState\<close> both are. \<open>props\<close> stands for all
  its properties but \<open>elements\<close>; an absent \<open>elements\<close> is \<open>None\<close>.
\<close>

datatype 'a ElementState =
  ElementState (props: 'a) (elements: "'a ElementState list option")

text \<open>
  \<open>findElement\<close>, with \<open>None\<close> for \<open>undefined\<close>, and the \<open>for\<close> loop of its body over
  the elements still to visit. The second argument is the state searched, after the
  default \<open>this.state\<close> has taken the place of an omitted one, with the shape the
  parameter's type declares.
\<close>

fun findElement ::
  "('a ElementState \<Rightarrow> bool) \<Rightarrow> 'a ElementState option \<Rightarrow> 'a ElementState option"
and findElementLoop ::
  "('a ElementState \<Rightarrow> bool) \<Rightarrow> 'a ElementState list \<Rightarrow> 'a ElementState option" where
  "findElement predicate None = None"
| "findElement predicate (Some (ElementState a None)) = None"
| "findElement predicate (Some (ElementState a (Some es))) = findElementLoop predicate es"
| "findElementLoop predicate [] = None"
| "findElementLoop predicate (element # rest) =
     (if predicate element then Some element
      else case elements element of
             None \<Rightarrow> findElementLoop predicate rest
           | Some nested \<Rightarrow>
               (case findElement predicate (Some element) of
                  Some foundNestedElement \<Rightarrow> Some foundNestedElement
                | None \<Rightarrow> findElementLoop predicate rest))"

text \<open>
  The order the specification names: the elements below a node in depth-first
  preorder, each element before its own children, and the children of an element
  before its later siblings. The node itself is not in the list.
\<close>

fun preorderElements :: "'a ElementState \<Rightarrow> 'a ElementState list" where
  "preorderElements (ElementState a None) = []"
| "preorderElements (ElementState a (Some es)) =
     concat (map (\<lambda>e. e # preorderElements e) es)"

text \<open>The snapshot of the specification's example: A holds B and C, C holds D.\<close>

definition exampleSnapshot :: "string ElementState" where
  "exampleSnapshot =
     ElementState ''snapshot''
       (Some [ElementState ''A''
                (Some [ElementState ''B'' None,
                       ElementState ''C'' (Some [ElementState ''D'' None])])])"

section \<open>Example states\<close>

text \<open>
  An instance on a container in the document, after the embed announced itself
  (\<open>uuid()\<close> returned the identifier below for the \<open>setMode\<close> command), with the
  \<open>onPlay\<close> hook assigned.
\<close>

definition exampleUuid :: string where
  "exampleUuid = ''110ec58a-a0f2-4ac4-8393-c866d813b8d1''"

definition readyRenderer :: renderer where
  "readyRenderer =
     run (newRenderer True Player ''public-token'')
       [Assign OnPlay True, Deliver exampleUuid (JObj [(''message'', JStr ''onReady'')])]"

text \<open>A ready instance whose one pending command has the identifier \<open>X\<close>.\<close>

definition pendingX :: renderer where
  "pendingX =
     (newRenderer True Player ''public-token'')
       \<lparr>ready := True, pendingPromises := [(''X'', 0)], promises := [Pending]\<rparr>"

section \<open>Auxiliary facts\<close>

subsection \<open>Identifiers\<close>

lemma isUuid_length: "isUuid s \<Longrightarrow> length s = 36"
proof -
  assume "isUuid s"
  then have "length (map uuidPattern s) = length ''xxxxxxxx-xxxx-xxxx-xxxx-xxxxxxxxxxxx''"
    unfolding isUuid_def by (rule arg_cong)
  then show ?thesis by simp
qed

lemma isUuid_nonempty: "isUuid s \<Longrightarrow> s \<noteq> []"
  using isUuid_length by fastforce

lemma objectPrototypeKeys_length: "k \<in> set objectPrototypeKeys \<Longrightarrow> length k \<le> 20"
  by (auto simp: objectPrototypeKeys_def)

lemma isUuid_not_inherited: "isUuid s \<Longrightarrow> s \<notin> set objectPrototypeKeys"
  using isUuid_length objectPrototypeKeys_length by fastforce

lemma isUuid_exampleUuid: "isUuid exampleUuid"
  by (simp add: exampleUuid_def isUuid_def uuidPattern_def hexDigit_def)

subsection \<open>The handler, branch by branch\<close>

lemma handleMessage_dropped:
  "\<not> truthy d \<or> \<not> typeofObject d \<Longrightarrow> handleMessage r u d = r"
  by (auto simp: handleMessage_def)

lemma handleMessage_reply:
  "truthy d \<Longrightarrow> typeofObject d \<Longrightarrow> truthy (getField d ''id'') \<Longrightarrow>
   handleMessage r u d = handleReply r (getField d ''id'') (getField d ''error'') (restFields d)"
  by (simp add: handleMessage_def Let_def)

lemma handleMessage_event:
  "truthy d \<Longrightarrow> typeofObject d \<Longrightarrow> \<not> truthy (getField d ''id'') \<Longrightarrow>
   handleMessage r u d = handleEvent r u (getField d ''message'') (restFields d)"
  by (simp add: handleMessage_def Let_def)

lemma handleReply_unconvertible:
  "toStr i = Inl x \<Longrightarrow> handleReply r i e a = uncaught x r"
  by (simp add: handleReply_def)

lemma handleReply_own:
  "toStr i = Inr key \<Longrightarrow> map_of (pendingPromises r) key = Some p \<Longrightarrow>
   handleReply r i e a =
     (if truthy e then
        (case toStr e of
           Inl x \<Rightarrow> uncaught x r
         | Inr m \<Rightarrow>
             r\<lparr>promises := settle (promises r) p (Rejected (Error m)),
               pendingPromises := AList.delete key (pendingPromises r)\<rparr>)
      else
        r\<lparr>promises := settle (promises r) p (Fulfilled a),
          pendingPromises := AList.delete key (pendingPromises r)\<rparr>)"
  by (simp add: handleReply_def lookupProperty_def)

lemma handleReply_missing:
  "toStr i = Inr key \<Longrightarrow> map_of (pendingPromises r) key = None \<Longrightarrow>
   key \<notin> set objectPrototypeKeys \<Longrightarrow> handleReply r i e a = r"
  by (simp add: handleReply_def lookupProperty_def)

lemma handleReply_inherited:
  "toStr i = Inr key \<Longrightarrow> map_of (pendingPromises r) key = None \<Longrightarrow>
   key \<in> set objectPrototypeKeys \<Longrightarrow>
   handleReply r i e a =
     (if truthy e then
        (case toStr e of
           Inl x \<Rightarrow> uncaught x r
         | Inr m \<Rightarrow> uncaught (TypeError ''pendingPromise.reject is not a function'') r)
      else uncaught (TypeError ''pendingPromise.resolve is not a function'') r)"
  by (simp add: handleReply_def lookupProperty_def)

text \<open>An array passes the \<open>typeof\<close> test, has neither an \<open>id\<close> nor a \<open>message\<close>, and is ignored.\<close>

lemma digitChar_digit: "digitChar d \<in> set ''0123456789''"
proof -
  have "d mod 10 < length ''0123456789''" by simp
  then have "''0123456789'' ! (d mod 10) \<in> set ''0123456789''" by (rule nth_mem)
  then show ?thesis by (simp only: digitChar_def)
qed

lemma showNat_digits: "set (showNat n) \<subseteq> set ''0123456789''"
proof (induction n rule: showNat.induct)
  case (1 n)
  show ?case
  proof (cases "n < 10")
    case True
    then have "showNat n = [digitChar n]" by (simp add: showNat.simps)
    then show ?thesis using digitChar_digit [of n] by simp
  next
    case False
    then have "showNat n = showNat (n div 10) @ [digitChar (n mod 10)]"
      by (subst showNat.simps) simp
    then show ?thesis using "1.IH" [OF False] digitChar_digit [of "n mod 10"] by simp
  qed
qed

lemma array_has_no_named_field:
  assumes "\<not> set k \<subseteq> set ''0123456789''"
  shows "getField (JArr xs) k = JUndefined"
proof -
  have "k \<notin> set (map showNat [0..<length xs])"
    using assms showNat_digits by auto
  then have "map_of (ownFields (JArr xs)) k = None"
    by simp
  then show ?thesis by (simp only: getField_def option.case)
qed

lemma handleMessage_array: "handleMessage r u (JArr xs) = r"
proof -
  have i: "getField (JArr xs) ''id'' = JUndefined"
    and m: "getField (JArr xs) ''message'' = JUndefined"
    by (rule array_has_no_named_field, simp)+
  have "handleMessage r u (JArr xs) = handleEvent r u JUndefined (restFields (JArr xs))"
    using handleMessage_event [of "JArr xs" r u] by (simp add: i m)
  then show ?thesis by (simp add: handleEvent_def)
qed

lemma sendCommand_ready:
  "ready r \<Longrightarrow>
   sendCommand r u message payload =
     (r\<lparr>effects := effects r @
            (if contentWindow r
             then [PostMessage (JObj (spread (spread [(''id'', JStr u)]
                                        (ownFields (jsonClone (JObj message))))
                                      (case payload of None \<Rightarrow> [] | Some pl \<Rightarrow> pl)))]
             else []),
         promises := promises r @ [Pending],
         pendingPromises := AList.update u (length (promises r)) (pendingPromises r)\<rparr>,
      Inr (length (promises r)))"
  by (simp add: sendCommand_def Let_def)

lemma setMode_ready:
  "ready r \<Longrightarrow>
   fst (setMode r u m) =
     r\<lparr>effects := effects r @
            (if contentWindow r
             then [PostMessage (JObj [(''id'', JStr u), (''message'', JStr ''setMode''),
                                      (''mode'', JStr (modeName m))])]
             else []),
         promises := promises r @ [Pending],
         pendingPromises := AList.update u (length (promises r)) (pendingPromises r)\<rparr>"
  unfolding setMode_def
  by (simp add: sendCommand_ready spread_def enumerationOrder_def arrayIndex_def)

subsection \<open>The pending table stays well formed\<close>

lemma update_set_subset: "set (AList.update k v al) \<subseteq> insert (k, v) (set al)"
  by (induction al) auto

lemma update_snd_distinct:
  "distinct (map snd al) \<Longrightarrow> v \<notin> snd ` set al \<Longrightarrow> distinct (map snd (AList.update k v al))"
proof (induction al)
  case Nil
  then show ?case by simp
next
  case (Cons a al)
  obtain k' v' where a: "a = (k', v')" by (cases a)
  have "snd ` set (AList.update k v al) \<subseteq> insert v (snd ` set al)"
    using update_set_subset [of k v al] by force
  with Cons a show ?case by auto
qed

lemma delete_snd_distinct:
  "distinct (map snd al) \<Longrightarrow> distinct (map snd (AList.delete k al))"
  by (simp add: AList.delete_eq distinct_map_filter)

lemma delete_set: "set (AList.delete k al) = {kv \<in> set al. fst kv \<noteq> k}"
  by (auto simp: AList.delete_eq)

lemma snd_distinct_key:
  "distinct (map snd al) \<Longrightarrow> (k, v) \<in> set al \<Longrightarrow> (k', v) \<in> set al \<Longrightarrow> k = k'"
  by (metis Pair_inject distinct_map inj_onD snd_conv)

lemma pendingWellFormed_new: "pendingWellFormed (newRenderer connected m token)"
  by (simp add: pendingWellFormed_def newRenderer_def)

lemma pendingWellFormed_dispose: "pendingWellFormed (dispose r)"
  by (simp add: pendingWellFormed_def dispose_def)

lemma pendingWellFormed_add:
  assumes wf: "pendingWellFormed r" and u: "isUuid u"
  shows "pendingWellFormed
           (r\<lparr>effects := es, promises := promises r @ [Pending],
              pendingPromises := AList.update u (length (promises r)) (pendingPromises r)\<rparr>)"
proof -
  let ?al = "pendingPromises r"
  from wf have d1: "distinct (map fst ?al)" and d2: "distinct (map snd ?al)"
    and all: "\<forall>kp \<in> set ?al. isUuid (fst kp) \<and> snd kp < length (promises r)
                 \<and> promises r ! snd kp = Pending"
    by (simp_all add: pendingWellFormed_def list_all_iff)
  have fresh: "length (promises r) \<notin> snd ` set ?al"
    using all by auto
  have "\<forall>kp \<in> set (AList.update u (length (promises r)) ?al).
          isUuid (fst kp) \<and> snd kp < length (promises r @ [Pending])
            \<and> (promises r @ [Pending]) ! snd kp = Pending"
  proof
    fix kp assume "kp \<in> set (AList.update u (length (promises r)) ?al)"
    then have "kp = (u, length (promises r)) \<or> kp \<in> set ?al"
      using update_set_subset by fastforce
    then show "isUuid (fst kp) \<and> snd kp < length (promises r @ [Pending])
            \<and> (promises r @ [Pending]) ! snd kp = Pending"
      using all u by (auto simp: nth_append)
  qed
  then show ?thesis
    using d1 d2 fresh
    by (simp add: pendingWellFormed_def list_all_iff distinct_update update_snd_distinct)
qed

lemma pendingWellFormed_sendCommand:
  "pendingWellFormed r \<Longrightarrow> isUuid u \<Longrightarrow> pendingWellFormed (fst (sendCommand r u message payload))"
  by (cases "ready r") (simp_all add: sendCommand_ready pendingWellFormed_add, simp add: sendCommand_def)

lemma pendingWellFormed_settle:
  assumes wf: "pendingWellFormed r" and own: "map_of (pendingPromises r) k = Some p"
  shows "pendingWellFormed
           (r\<lparr>promises := settle (promises r) p s,
              pendingPromises := AList.delete k (pendingPromises r)\<rparr>)"
proof -
  let ?al = "pendingPromises r"
  from wf have d1: "distinct (map fst ?al)" and d2: "distinct (map snd ?al)"
    and all: "\<forall>kp \<in> set ?al. isUuid (fst kp) \<and> snd kp < length (promises r)
                 \<and> promises r ! snd kp = Pending"
    by (simp_all add: pendingWellFormed_def list_all_iff)
  from own have mem: "(k, p) \<in> set ?al" by (rule map_of_SomeD)
  have len: "length (settle (promises r) p s) = length (promises r)"
    by (simp add: settle_def)
  have "\<forall>kp \<in> set (AList.delete k ?al).
          isUuid (fst kp) \<and> snd kp < length (settle (promises r) p s)
            \<and> settle (promises r) p s ! snd kp = Pending"
  proof
    fix kp assume kp: "kp \<in> set (AList.delete k ?al)"
    then have in_al: "kp \<in> set ?al" and ne: "fst kp \<noteq> k" by (simp_all add: delete_set)
    have "snd kp \<noteq> p"
    proof
      assume "snd kp = p"
      then have "(fst kp, p) \<in> set ?al" using in_al by (metis prod.collapse)
      with d2 mem have "k = fst kp" by (rule snd_distinct_key)
      with ne show False by simp
    qed
    then show "isUuid (fst kp) \<and> snd kp < length (settle (promises r) p s)
            \<and> settle (promises r) p s ! snd kp = Pending"
      using all in_al by (simp add: settle_def)
  qed
  then show ?thesis
    using d1 d2 by (simp add: pendingWellFormed_def list_all_iff distinct_delete delete_snd_distinct)
qed

lemma pendingWellFormed_effects [simp]:
  "pendingWellFormed (r\<lparr>effects := es\<rparr>) = pendingWellFormed r"
  by (simp add: pendingWellFormed_def)

lemma pendingWellFormed_invoke [simp]:
  "pendingWellFormed (invoke c args r) = pendingWellFormed r"
  by (simp add: invoke_def)

lemma pendingWellFormed_uncaught [simp]:
  "pendingWellFormed (uncaught e r) = pendingWellFormed r"
  by (simp add: uncaught_def)

lemma pendingWellFormed_handleReply:
  assumes wf: "pendingWellFormed r"
  shows "pendingWellFormed (handleReply r i e a)"
proof (cases "toStr i")
  case (Inl x)
  with wf show ?thesis by (simp add: handleReply_unconvertible)
next
  case (Inr key)
  show ?thesis
  proof (cases "map_of (pendingPromises r) key")
    case None
    with wf Inr show ?thesis
      by (cases "key \<in> set objectPrototypeKeys")
         (simp_all add: handleReply_missing handleReply_inherited split: sum.splits)
  next
    case (Some p)
    with wf Inr show ?thesis
      by (simp add: handleReply_own pendingWellFormed_settle split: sum.splits)
  qed
qed

lemma pendingWellFormed_handleEvent:
  assumes "pendingWellFormed r" and "isUuid u"
  shows "pendingWellFormed (handleEvent r u message args)"
proof (cases "message = JStr ''onReady''")
  case True
  have "pendingWellFormed (r\<lparr>ready := True\<rparr>)"
    using assms(1) by (simp add: pendingWellFormed_def)
  then have "pendingWellFormed (fst (setMode (r\<lparr>ready := True\<rparr>) u (mode r)))"
    unfolding setMode_def using assms(2) by (rule pendingWellFormed_sendCommand)
  with True show ?thesis by (simp add: handleEvent_def Let_def)
next
  case False
  have "pendingWellFormed (r\<lparr>state := v\<rparr>)" for v
    using assms(1) by (simp add: pendingWellFormed_def)
  with False assms(1) show ?thesis by (simp add: handleEvent_def Let_def)
qed

lemma pendingWellFormed_handleMessage:
  "pendingWellFormed r \<Longrightarrow> isUuid u \<Longrightarrow> pendingWellFormed (handleMessage r u d)"
  by (simp add: handleMessage_def Let_def pendingWellFormed_handleReply pendingWellFormed_handleEvent)

lemma pendingWellFormed_assign: "pendingWellFormed (assign c b r) = pendingWellFormed r"
  by (cases c) (simp_all add: pendingWellFormed_def)

lemma pendingWellFormed_step:
  "pendingWellFormed r \<Longrightarrow> uuidAction a \<Longrightarrow> pendingWellFormed (step r a)"
  by (cases a)
     (simp_all add: deliver_def pendingWellFormed_handleMessage pendingWellFormed_sendCommand
        pendingWellFormed_dispose pendingWellFormed_assign, simp add: pendingWellFormed_def)

lemma pendingWellFormed_run:
  "pendingWellFormed r \<Longrightarrow> list_all uuidAction acts \<Longrightarrow> pendingWellFormed (run r acts)"
  unfolding run_def
  by (induction acts arbitrary: r) (simp_all add: pendingWellFormed_step)

lemma mode_handleReply: "mode (handleReply r i e a) = mode r"
  by (simp add: handleReply_def uncaught_def split: lookup.splits sum.splits)

lemma mode_sendCommand: "mode (fst (sendCommand r u message payload)) = mode r"
  by (simp add: sendCommand_def Let_def)

lemma mode_handleEvent: "mode (handleEvent r u message args) = mode r"
  by (simp add: handleEvent_def Let_def invoke_def setMode_def mode_sendCommand)

lemma mode_handleMessage: "mode (handleMessage r u d) = mode r"
  by (simp add: handleMessage_def Let_def mode_handleReply mode_handleEvent)

lemma mode_step: "mode (step r a) = mode r"
proof (cases a)
  case (Assign c b)
  then show ?thesis by (cases c) simp_all
qed (simp_all add: deliver_def mode_handleMessage mode_sendCommand dispose_def)

lemma mode_run: "mode (run r acts) = mode r"
  unfolding run_def by (induction acts arbitrary: r) (simp_all add: mode_step)

lemma mode_new: "mode (newRenderer connected m token) = m"
  by (simp add: newRenderer_def)

lemma sendCommand_registers:
  "ready r \<Longrightarrow>
   map_of (pendingPromises (fst (sendCommand r u message payload))) u = Some (length (promises r))
   \<and> promises (fst (sendCommand r u message payload)) = promises r @ [Pending]
   \<and> snd (sendCommand r u message payload) = Inr (length (promises r))"
  by (simp add: sendCommand_ready update_conv')

lemma pendingWellFormed_entry:
  "pendingWellFormed r \<Longrightarrow> map_of (pendingPromises r) k = Some p \<Longrightarrow>
   isUuid k \<and> p < length (promises r) \<and> promises r ! p = Pending"
  by (auto simp: pendingWellFormed_def list_all_iff dest!: map_of_SomeD)

lemma settle_pending:
  "p < length ps \<Longrightarrow> ps ! p = Pending \<Longrightarrow> settle ps p s = ps[p := s]"
  by (simp add: settle_def)

lemma handleMessage_matching_reply:
  assumes pend: "map_of (pendingPromises r) X = Some p"
    and live: "p < length (promises r)" "promises r ! p = Pending"
    and X: "X \<noteq> []"
    and d: "truthy d" "typeofObject d" "getField d ''id'' = JStr X"
  shows "handleMessage r u d =
           (if truthy (getField d ''error'') then
              (case toStr (getField d ''error'') of
                 Inl x \<Rightarrow> uncaught x r
               | Inr m \<Rightarrow>
                   r\<lparr>promises := (promises r)[p := Rejected (Error m)],
                     pendingPromises := AList.delete X (pendingPromises r)\<rparr>)
            else
              r\<lparr>promises := (promises r)[p := Fulfilled (restFields d)],
                pendingPromises := AList.delete X (pendingPromises r)\<rparr>)"
proof -
  have "handleMessage r u d = handleReply r (JStr X) (getField d ''error'') (restFields d)"
    using d X handleMessage_reply [of d r u] by simp
  moreover have "toStr (JStr X) = Inr X" by simp
  ultimately show ?thesis
    using pend live by (simp add: handleReply_own settle_pending split: sum.splits)
qed

lemma handleMessage_unmatched_reply:
  assumes none: "map_of (pendingPromises r) X = None"
    and X: "X \<noteq> []" "X \<notin> set objectPrototypeKeys"
    and d: "truthy d" "typeofObject d" "getField d ''id'' = JStr X"
  shows "handleMessage r u d = r"
proof -
  have "handleMessage r u d = handleReply r (JStr X) (getField d ''error'') (restFields d)"
    using d X handleMessage_reply [of d r u] by simp
  moreover have "toStr (JStr X) = Inr X" by simp
  ultimately show ?thesis using none X(2) by (simp add: handleReply_missing)
qed

text \<open>
  In a well-formed state, a reply that carries the identifier \<open>X\<close> of a pending
  command, and whose \<open>error\<close> field is falsy or converts to a string, settles the
  future of \<open>X\<close> and no other, and removes the entry; a second reply that carries \<open>X\<close>
  changes nothing.
\<close>

lemma matching_reply_settles_once:
  assumes wf: "pendingWellFormed r"
    and pend: "map_of (pendingPromises r) X = Some p"
    and d: "truthy d" "typeofObject d" "getField d ''id'' = JStr X"
    and e: "\<not> truthy (getField d ''error'') \<or> toStr (getField d ''error'') = Inr m"
    and d': "truthy d'" "typeofObject d'" "getField d' ''id'' = JStr X"
  shows "p < length (promises r) \<and> promises r ! p = Pending
     \<and> handleMessage r u d =
           r\<lparr>promises := (promises r)
                  [p := (if truthy (getField d ''error'')
                         then Rejected (Error m) else Fulfilled (restFields d))],
              pendingPromises := AList.delete X (pendingPromises r)\<rparr>
     \<and> map_of (pendingPromises (handleMessage r u d)) X = None
     \<and> handleMessage (handleMessage r u d) u' d' = handleMessage r u d"
proof -
  from wf pend have entry: "isUuid X" "p < length (promises r)" "promises r ! p = Pending"
    using pendingWellFormed_entry by blast+
  from entry(1) have X: "X \<noteq> []" "X \<notin> set objectPrototypeKeys"
    by (simp_all add: isUuid_nonempty isUuid_not_inherited)
  have first: "handleMessage r u d =
           r\<lparr>promises := (promises r)
                  [p := (if truthy (getField d ''error'')
                         then Rejected (Error m) else Fulfilled (restFields d))],
              pendingPromises := AList.delete X (pendingPromises r)\<rparr>"
    using handleMessage_matching_reply [OF pend entry(2,3) X(1) d, of u] e by auto
  have gone: "map_of (pendingPromises (handleMessage r u d)) X = None"
    by (simp add: first delete_conv')
  have second: "handleMessage (handleMessage r u d) u' d' = handleMessage r u d"
    using gone X d' by (rule handleMessage_unmatched_reply)
  from entry(2,3) first gone second show ?thesis by simp
qed

lemma pendingWellFormed_readyRenderer: "pendingWellFormed readyRenderer"
  unfolding readyRenderer_def
  by (rule pendingWellFormed_run) (simp_all add: pendingWellFormed_new isUuid_exampleUuid)

lemma readyRenderer_eq:
  "readyRenderer = (newRenderer True Player ''public-token'')
     \<lparr>onPlay := True, ready := True,
      pendingPromises := [(exampleUuid, 0)], promises := [Pending],
      effects := [PostMessage (JObj [(''id'', JStr exampleUuid), (''message'', JStr ''setMode''),
                                    (''mode'', JStr ''player'')])]\<rparr>"
  by (simp add: readyRenderer_def run_def newRenderer_def deliver_def handleMessage_def getField_def
      handleEvent_def setMode_def sendCommand_def spread_def enumerationOrder_def arrayIndex_def
      restFields_def exampleUuid_def Let_def)

lemma sublist_after_prefix: "sublist m (pre @ m)"
  by (rule suffix_imp_sublist) (simp add: suffix_def)

lemma pendingX_eq:
  "pendingPromises pendingX = [(''X'', 0)]" "promises pendingX = [Pending]"
  by (simp_all add: pendingX_def)

lemma callbackNamed_names:
  "callbackNamed (JStr ''onReady'') = Some OnReady"
  "callbackNamed (JStr ''onLoad'') = Some OnLoad"
  "callbackNamed (JStr ''onLoadComplete'') = Some OnLoadComplete"
  "callbackNamed (JStr ''onPlay'') = Some OnPlay"
  "callbackNamed (JStr ''onPause'') = Some OnPause"
  "callbackNamed (JStr ''onTimeChange'') = Some OnTimeChange"
  "callbackNamed (JStr ''onToolChange'') = Some OnToolChange"
  "callbackNamed (JStr ''onActiveElementsChange'') = Some OnActiveElementsChange"
  "callbackNamed (JStr ''onStateChange'') = Some OnStateChange"
  by (simp_all add: callbackNamed_def eventCallbacks_def)

lemma callbackNamed_cases:
  assumes "callbackNamed message = Some c"
  shows "message = JStr ''onReady'' \<and> c = OnReady
    \<or> message = JStr ''onLoad'' \<and> c = OnLoad
    \<or> message = JStr ''onLoadComplete'' \<and> c = OnLoadComplete
    \<or> message = JStr ''onPlay'' \<and> c = OnPlay
    \<or> message = JStr ''onPause'' \<and> c = OnPause
    \<or> message = JStr ''onTimeChange'' \<and> c = OnTimeChange
    \<or> message = JStr ''onToolChange'' \<and> c = OnToolChange
    \<or> message = JStr ''onActiveElementsChange'' \<and> c = OnActiveElementsChange
    \<or> message = JStr ''onStateChange'' \<and> c = OnStateChange"
proof -
  from assms obtain name where m: "message = JStr name" and "map_of eventCallbacks name = Some c"
    by (cases message) (simp_all add: callbackNamed_def)
  then have "(name, c) \<in> set eventCallbacks" by (simp add: map_of_SomeD)
  then have "(name, c) \<in> {(''onReady'', OnReady), (''onLoad'', OnLoad),
      (''onLoadComplete'', OnLoadComplete), (''onPlay'', OnPlay), (''onPause'', OnPause),
      (''onTimeChange'', OnTimeChange), (''onToolChange'', OnToolChange),
      (''onActiveElementsChange'', OnActiveElementsChange), (''onStateChange'', OnStateChange)}"
    by (simp only: eventCallbacks_def list.set)
  with m show ?thesis by simp
qed

lemma handleEvent_unknown:
  assumes "callbackNamed message = None"
  shows "handleEvent r u message args = r"
proof -
  have "message \<noteq> JStr ''onReady''" "message \<noteq> JStr ''onLoad''"
    "message \<noteq> JStr ''onLoadComplete''" "message \<noteq> JStr ''onPlay''"
    "message \<noteq> JStr ''onPause''" "message \<noteq> JStr ''onTimeChange''"
    "message \<noteq> JStr ''onToolChange''" "message \<noteq> JStr ''onActiveElementsChange''"
    "message \<noteq> JStr ''onStateChange''"
    using assms callbackNamed_names by fastforce+
  then show ?thesis by (simp only: handleEvent_def if_False)
qed

lemma handleEvent_no_hook:
  assumes "callbackNamed message = Some c" "c \<noteq> OnReady" "c \<noteq> OnStateChange"
    and "\<not> hookAssigned c r"
  shows "handleEvent r u message args = r"
  using callbackNamed_cases [OF assms(1)]
proof (elim disjE conjE)
  assume "message = JStr ''onReady''" "c = OnReady"
  with assms(2) show ?thesis by simp
next
  assume "message = JStr ''onLoad''" "c = OnLoad"
  with assms(4) show ?thesis by (simp add: handleEvent_def)
next
  assume "message = JStr ''onLoadComplete''" "c = OnLoadComplete"
  with assms(4) show ?thesis by (simp add: handleEvent_def)
next
  assume "message = JStr ''onPlay''" "c = OnPlay"
  with assms(4) show ?thesis by (simp add: handleEvent_def)
next
  assume "message = JStr ''onPause''" "c = OnPause"
  with assms(4) show ?thesis by (simp add: handleEvent_def)
next
  assume "message = JStr ''onTimeChange''" "c = OnTimeChange"
  with assms(4) show ?thesis by (simp add: handleEvent_def)
next
  assume "message = JStr ''onToolChange''" "c = OnToolChange"
  with assms(4) show ?thesis by (simp add: handleEvent_def)
next
  assume "message = JStr ''onActiveElementsChange''" "c = OnActiveElementsChange"
  with assms(4) show ?thesis by (simp add: handleEvent_def)
next
  assume "message = JStr ''onStateChange''" "c = OnStateChange"
  with assms(3) show ?thesis by simp
qed

lemma handleMessage_unconvertible_id:
  assumes d: "truthy d" "typeofObject d" "truthy (getField d ''id'')"
    and x: "toStr (getField d ''id'') = Inl x"
  shows "handleMessage r u d = uncaught x r"
  by (simp add: handleMessage_reply [OF d] handleReply_unconvertible [OF x])

lemma handleMessage_unmatched:
  assumes d: "truthy d" "typeofObject d" "truthy (getField d ''id'')"
    and key: "toStr (getField d ''id'') = Inr key"
    and none: "map_of (pendingPromises r) key = None"
  shows "handleMessage r u d =
           (if key \<in> set objectPrototypeKeys then
              (if truthy (getField d ''error'') then
                 (case toStr (getField d ''error'') of
                    Inl x \<Rightarrow> uncaught x r
                  | Inr m \<Rightarrow> uncaught (TypeError ''pendingPromise.reject is not a function'') r)
               else uncaught (TypeError ''pendingPromise.resolve is not a function'') r)
            else r)"
  using none
  by (simp add: handleMessage_reply [OF d] handleReply_missing [OF key]
        handleReply_inherited [OF key])

lemma handleMessage_unmatched_frame:
  assumes d: "truthy d" "typeofObject d" "truthy (getField d ''id'')"
    and none: "\<forall>key. toStr (getField d ''id'') = Inr key
                 \<longrightarrow> map_of (pendingPromises r) key = None"
  shows "pendingPromises (handleMessage r u d) = pendingPromises r
     \<and> ready (handleMessage r u d) = ready r
     \<and> state (handleMessage r u d) = state r
     \<and> promises (handleMessage r u d) = promises r
     \<and> [e \<leftarrow> effects (handleMessage r u d). \<exists>c a s. e = Invoke c a s]
         = [e \<leftarrow> effects r. \<exists>c a s. e = Invoke c a s]"
proof (cases "toStr (getField d ''id'')")
  case (Inl x)
  then show ?thesis by (simp add: handleMessage_unconvertible_id [OF d] uncaught_def)
next
  case (Inr key)
  with none have "map_of (pendingPromises r) key = None" by simp
  then show ?thesis
    by (simp add: handleMessage_unmatched [OF d Inr] uncaught_def split: sum.splits)
qed

lemma handleEvent_onReady:
  "handleEvent r u (JStr ''onReady'') args =
     (let sent = r\<lparr>ready := True,
                   effects := effects r @
                     (if contentWindow r
                      then [PostMessage (JObj [(''id'', JStr u), (''message'', JStr ''setMode''),
                                               (''mode'', JStr (modeName (mode r)))])]
                      else []),
                   promises := promises r @ [Pending],
                   pendingPromises := AList.update u (length (promises r)) (pendingPromises r)\<rparr>
      in if onReady r then invoke OnReady [] sent else sent)"
proof -
  have "fst (setMode (r\<lparr>ready := True\<rparr>) u (mode r)) =
      r\<lparr>ready := True,
        effects := effects r @
            (if contentWindow r
             then [PostMessage (JObj [(''id'', JStr u), (''message'', JStr ''setMode''),
                                      (''mode'', JStr (modeName (mode r)))])]
             else []),
         promises := promises r @ [Pending],
         pendingPromises := AList.update u (length (promises r)) (pendingPromises r)\<rparr>"
    using setMode_ready [of "r\<lparr>ready := True\<rparr>" u "mode r"] by simp
  then show ?thesis by (simp add: handleEvent_def Let_def)
qed

subsection \<open>The search in the element tree\<close>

lemma find_append_option:
  "List.find P (xs @ ys) = (case List.find P xs of Some x \<Rightarrow> Some x | None \<Rightarrow> List.find P ys)"
  by (induction xs) auto

lemma findElement_find:
  "findElement p (Some st) = List.find p (preorderElements st)"
  "findElementLoop p es = List.find p (concat (map (\<lambda>e. e # preorderElements e) es))"
proof (induction p "Some st" and p es arbitrary: st rule: findElement_findElementLoop.induct)
  case (2 predicate a)
  then show ?case by simp
next
  case (3 predicate a es)
  then show ?case by simp
next
  case (4 predicate)
  then show ?case by simp
next
  case (5 predicate element rest)
  then show ?case
    by (cases element; cases "elements element")
       (auto simp: find_append_option split: option.splits)
qed

lemma preorderElements_smaller:
  "e \<in> set (preorderElements st) \<Longrightarrow> size e < size st"
proof (induction st arbitrary: e rule: preorderElements.induct)
  case (1 a)
  then show ?case by simp
next
  case (2 a es)
  from "2.prems" obtain c where c: "c \<in> set es" and e: "e = c \<or> e \<in> set (preorderElements c)"
    by auto
  have "size c < size (ElementState a (Some es))"
    using c size_list_estimation' [of c es "size c" size] by simp
  moreover have "size e \<le> size c"
    using e "2.IH" [OF c] by (auto intro: less_imp_le)
  ultimately show ?case by simp
qed

lemma root_not_in_preorder: "st \<notin> set (preorderElements st)"
  using preorderElements_smaller by blast

section \<open>Sending before readiness\<close>

text \<open>
  C2. While the \<open>ready\<close> flag is false, \<open>_sendCommand\<close> throws the not-ready error
  for every message and payload, and returns the instance as it was: nothing is posted
  to the embed (\<open>effects\<close> is unchanged) and no entry is added to the pending table.
\<close>

theorem sendCommand_before_ready:
  "\<not> ready r \<Longrightarrow> sendCommand r u message payload = (r, Inl (Error notReadyMessage))"
  by (simp add: sendCommand_def)

theorem sendCommand_before_ready_witness:
  "\<not> ready (newRenderer True Player ''public-token'')
   \<and> sendCommand (newRenderer True Player ''public-token'') exampleUuid
         [(''message'', JStr ''play'')] None
       = (newRenderer True Player ''public-token'', Inl (Error notReadyMessage))"
proof -
  have fresh: "\<not> ready (newRenderer True Player ''public-token'')"
    by (simp add: newRenderer_def)
  from fresh sendCommand_before_ready [OF fresh] show ?thesis by (intro conjI)
qed

section \<open>Replies\<close>

text \<open>
  C1. A reply that carries the identifier of a pending command settles the future of
  that command and removes its entry, and a second reply with the identifier changes
  nothing, whenever the \<open>error\<close> field of the reply is falsy or converts to a string
  (\<open>matching_reply_settles_once\<close>). It does not for every reply: \<open>new Error(error)\<close>
  converts the field to a string before \<open>reject\<close> is called and before the entry is
  deleted, and the conversion of an object with an own \<open>toString\<close> property throws.
  Here the ready instance receives \<open>{id: X, error: {toString: 1}}\<close> for the identifier
  \<open>X\<close> of its pending \<open>setMode\<close> command: the exception leaves the listener, the
  future is still pending and the entry is still in the table.
\<close>

theorem unconvertible_error_settles_nothing:
  "map_of (pendingPromises readyRenderer) exampleUuid = Some 0
   \<and> promises readyRenderer = [Pending]
   \<and> handleMessage readyRenderer exampleUuid
        (JObj [(''id'', JStr exampleUuid), (''error'', JObj [(''toString'', JNum ''1'')])])
       = readyRenderer\<lparr>effects := effects readyRenderer @
            [Uncaught (TypeError ''Cannot convert object to primitive value'')]\<rparr>
   \<and> map_of (pendingPromises (handleMessage readyRenderer exampleUuid
        (JObj [(''id'', JStr exampleUuid), (''error'', JObj [(''toString'', JNum ''1'')])])))
        exampleUuid = Some 0
   \<and> promises (handleMessage readyRenderer exampleUuid
        (JObj [(''id'', JStr exampleUuid), (''error'', JObj [(''toString'', JNum ''1'')])]))
       = [Pending]"
proof -
  let ?d = "JObj [(''id'', JStr exampleUuid), (''error'', JObj [(''toString'', JNum ''1'')])]"
  have tbl: "map_of (pendingPromises readyRenderer) exampleUuid = Some 0"
    and store: "promises readyRenderer = [Pending]"
    by (simp_all add: readyRenderer_eq)
  have live: "0 < length (promises readyRenderer)" "promises readyRenderer ! 0 = Pending"
    by (simp_all add: store)
  have X: "exampleUuid \<noteq> []"
    using isUuid_exampleUuid by (rule isUuid_nonempty)
  have d: "truthy ?d" "typeofObject ?d" "getField ?d ''id'' = JStr exampleUuid"
    and e: "truthy (getField ?d ''error'')" "toStr (getField ?d ''error'') = Inl notPrimitive"
    by (simp_all add: getField_def)
  have thrown: "handleMessage readyRenderer exampleUuid ?d
       = readyRenderer\<lparr>effects := effects readyRenderer @
            [Uncaught (TypeError ''Cannot convert object to primitive value'')]\<rparr>"
    unfolding handleMessage_matching_reply [OF tbl live X d]
    by (simp only: e if_True sum.case uncaught_def notPrimitive_def)
  have tbl': "map_of (pendingPromises (handleMessage readyRenderer exampleUuid ?d)) exampleUuid
       = Some 0"
    unfolding thrown using tbl by simp
  have store': "promises (handleMessage readyRenderer exampleUuid ?d) = [Pending]"
    unfolding thrown using store by simp
  from tbl store thrown tbl' store' show ?thesis by (intro conjI)
qed

theorem unconvertible_error_settles_nothing_witness:
  "promises (handleMessage readyRenderer exampleUuid
      (JObj [(''id'', JStr exampleUuid), (''error'', JObj [(''toString'', JNum ''1'')])])) ! 0
     = Pending"
proof -
  from unconvertible_error_settles_nothing
  have "promises (handleMessage readyRenderer exampleUuid
      (JObj [(''id'', JStr exampleUuid), (''error'', JObj [(''toString'', JNum ''1'')])]))
       = [Pending]"
    by (elim conjE)
  then show ?thesis by simp
qed

text \<open>
  C3, as stated, says that the error branch is taken whenever the reply carries an
  \<open>error\<close> field. The handler tests \<open>if (error)\<close>: a reply whose \<open>error\<close> field is
  the empty string resolves the future of the pending command, for the command \<open>X\<close>
  and for the \<open>setMode\<close> command of the ready instance.
\<close>

theorem empty_error_resolves:
  "promises pendingX = [Pending]
   \<and> promises (handleMessage pendingX exampleUuid
                  (JObj [(''id'', JStr ''X''), (''error'', JStr [])]))
       = [Fulfilled (JObj [])]
   \<and> promises readyRenderer = [Pending]
   \<and> promises (handleMessage readyRenderer exampleUuid
                  (JObj [(''id'', JStr exampleUuid), (''error'', JStr [])]))
       = [Fulfilled (JObj [])]"
  by (simp add: handleMessage_def handleReply_def lookupProperty_def settle_def getField_def
        restFields_def pendingX_eq readyRenderer_eq exampleUuid_def Let_def)

text \<open>
  C3, amended. For every pending command with a non-empty identifier \<open>X\<close>, the reply
  \<open>{id: X, error: "bad input"}\<close> rejects that command's future with an error whose
  message is \<open>bad input\<close>; the error branch is taken whenever the \<open>error\<close> field of a
  reply is truthy, and when the field converts to a string the future is rejected with
  an error whose message is that string; the \<open>catch\<close> handler of every command method
  turns the rejection into an error whose message is the method's prefix followed by
  \<open>bad input\<close>, so it contains that string.
\<close>

theorem reply_with_error_rejects:
  assumes pend: "map_of (pendingPromises r) X = Some p"
    and live: "p < length (promises r)" "promises r ! p = Pending"
    and X: "X \<noteq> []"
  shows "promises (handleMessage r u (JObj [(''id'', JStr X), (''error'', JStr ''bad input'')]))
           = (promises r)[p := Rejected (Error ''bad input'')]
     \<and> (\<forall>d m. truthy d \<and> typeofObject d \<and> getField d ''id'' = JStr X
              \<and> truthy (getField d ''error'') \<and> toStr (getField d ''error'') = Inr m
           \<longrightarrow> promises (handleMessage r u d) = (promises r)[p := Rejected (Error m)])
     \<and> (\<forall>c. wrapperOutcome c (Rejected (Error ''bad input''))
                = Rejected (Error (failurePrefix c @ ''bad input''))
              \<and> sublist ''bad input'' (failurePrefix c @ ''bad input''))"
proof -
  have general: "promises (handleMessage r u d) = (promises r)[p := Rejected (Error m)]"
    if "truthy d" "typeofObject d" "getField d ''id'' = JStr X" "truthy (getField d ''error'')"
       "toStr (getField d ''error'') = Inr m"
    for d m
    using handleMessage_matching_reply [OF pend live X that(1,2,3), of u] that(4,5) by simp
  have literal:
    "promises (handleMessage r u (JObj [(''id'', JStr X), (''error'', JStr ''bad input'')]))
           = (promises r)[p := Rejected (Error ''bad input'')]"
    by (rule general) (simp_all add: getField_def)
  have wrapped: "wrapperOutcome c (Rejected (Error ''bad input''))
                = Rejected (Error (failurePrefix c @ ''bad input''))
              \<and> sublist ''bad input'' (failurePrefix c @ ''bad input'')" for c
    by (simp add: catchHandler_def sublist_after_prefix)
  from general have general':
    "\<forall>d m. truthy d \<and> typeofObject d \<and> getField d ''id'' = JStr X
              \<and> truthy (getField d ''error'') \<and> toStr (getField d ''error'') = Inr m
           \<longrightarrow> promises (handleMessage r u d) = (promises r)[p := Rejected (Error m)]"
    by simp
  from wrapped have wrapped':
    "\<forall>c. wrapperOutcome c (Rejected (Error ''bad input''))
                = Rejected (Error (failurePrefix c @ ''bad input''))
              \<and> sublist ''bad input'' (failurePrefix c @ ''bad input'')"
    by (rule allI)
  from literal general' wrapped' show ?thesis by (intro conjI)
qed

theorem reply_with_error_rejects_witness:
  "promises (handleMessage pendingX exampleUuid (JObj [(''id'', JStr ''X''), (''error'', JStr ''bad input'')]))
     = [Rejected (Error ''bad input'')]
   \<and> promises (handleMessage pendingX exampleUuid
        (JObj [(''id'', JStr ''X''), (''error'', JArr [JNum ''1e+21'', JNull, JStr ''late''])]))
     = [Rejected (Error ''1e+21,,late'')]
   \<and> wrapperOutcome LoadTemplate (Rejected (Error ''bad input''))
     = Rejected (Error ''Failed to load template: bad input'')"
proof -
  have pend: "map_of (pendingPromises pendingX) ''X'' = Some 0"
    and live: "0 < length (promises pendingX)" "promises pendingX ! 0 = Pending"
    and X: "''X'' \<noteq> []"
    by (simp_all add: pendingX_eq)
  note main = reply_with_error_rejects [OF pend live X, of exampleUuid]
  let ?d = "JObj [(''id'', JStr ''X''), (''error'', JArr [JNum ''1e+21'', JNull, JStr ''late''])]"
  have d: "truthy ?d \<and> typeofObject ?d \<and> getField ?d ''id'' = JStr ''X''
             \<and> truthy (getField ?d ''error'')
             \<and> toStr (getField ?d ''error'') = Inr ''1e+21,,late''"
    by (simp add: getField_def)
  from main have a: "promises (handleMessage pendingX exampleUuid
             (JObj [(''id'', JStr ''X''), (''error'', JStr ''bad input'')]))
           = (promises pendingX)[0 := Rejected (Error ''bad input'')]"
    by (rule conjunct1)
  from main have "\<forall>d m. truthy d \<and> typeofObject d \<and> getField d ''id'' = JStr ''X''
              \<and> truthy (getField d ''error'') \<and> toStr (getField d ''error'') = Inr m
           \<longrightarrow> promises (handleMessage pendingX exampleUuid d)
                 = (promises pendingX)[0 := Rejected (Error m)]"
    by (rule conjunct1 [OF conjunct2])
  with d have b: "promises (handleMessage pendingX exampleUuid ?d)
           = (promises pendingX)[0 := Rejected (Error ''1e+21,,late'')]"
    by (elim allE impE) assumption+
  from main have "\<forall>c. wrapperOutcome c (Rejected (Error ''bad input''))
                = Rejected (Error (failurePrefix c @ ''bad input''))
              \<and> sublist ''bad input'' (failurePrefix c @ ''bad input'')"
    by (rule conjunct2 [OF conjunct2])
  then have "wrapperOutcome LoadTemplate (Rejected (Error ''bad input''))
           = Rejected (Error (failurePrefix LoadTemplate @ ''bad input''))"
    by simp
  then have c: "wrapperOutcome LoadTemplate (Rejected (Error ''bad input''))
     = Rejected (Error ''Failed to load template: bad input'')"
    by simp
  from a b c show ?thesis by (simp add: pendingX_eq)
qed

text \<open>
  C4. For every pending command with a non-empty identifier \<open>X\<close>, the reply
  \<open>{id: X, value: 42}\<close> resolves that command's future with the object
  \<open>{value: 42}\<close>; in general a reply whose \<open>error\<close> field is absent or falsy resolves
  the future with the object of all payload fields except \<open>id\<close>, \<open>message\<close> and
  \<open>error\<close>.
\<close>

theorem reply_without_error_resolves:
  assumes pend: "map_of (pendingPromises r) X = Some p"
    and live: "p < length (promises r)" "promises r ! p = Pending"
    and X: "X \<noteq> []"
  shows "promises (handleMessage r u (JObj [(''id'', JStr X), (''value'', JNum ''42'')]))
           = (promises r)[p := Fulfilled (JObj [(''value'', JNum ''42'')])]
     \<and> (\<forall>kvs. map_of kvs ''id'' = Some (JStr X) \<and> \<not> truthy (getField (JObj kvs) ''error'')
           \<longrightarrow> promises (handleMessage r u (JObj kvs))
                 = (promises r)[p := Fulfilled
                      (JObj (filter (\<lambda>kv. fst kv \<notin> {''id'', ''message'', ''error''}) kvs))])"
proof -
  have general: "promises (handleMessage r u (JObj kvs))
                 = (promises r)[p := Fulfilled
                      (JObj (filter (\<lambda>kv. fst kv \<notin> {''id'', ''message'', ''error''}) kvs))]"
    if "map_of kvs ''id'' = Some (JStr X)" "\<not> truthy (getField (JObj kvs) ''error'')" for kvs
  proof -
    have d: "truthy (JObj kvs)" "typeofObject (JObj kvs)" "getField (JObj kvs) ''id'' = JStr X"
      using that(1) by (simp_all add: getField_def)
    show ?thesis
      using handleMessage_matching_reply [OF pend live X d, of u] that(2)
      by (simp add: restFields_def)
  qed
  have "promises (handleMessage r u (JObj [(''id'', JStr X), (''value'', JNum ''42'')]))
           = (promises r)[p := Fulfilled
                (JObj (filter (\<lambda>kv. fst kv \<notin> {''id'', ''message'', ''error''})
                   [(''id'', JStr X), (''value'', JNum ''42'')]))]"
    by (rule general) (simp_all add: getField_def)
  then have literal:
    "promises (handleMessage r u (JObj [(''id'', JStr X), (''value'', JNum ''42'')]))
           = (promises r)[p := Fulfilled (JObj [(''value'', JNum ''42'')])]"
    by simp
  from literal general show ?thesis by blast
qed

theorem reply_without_error_resolves_witness:
  "promises (handleMessage pendingX exampleUuid (JObj [(''id'', JStr ''X''), (''value'', JNum ''42'')]))
     = [Fulfilled (JObj [(''value'', JNum ''42'')])]
   \<and> promises (handleMessage pendingX exampleUuid
        (JObj [(''message'', JStr ''done''), (''id'', JStr ''X''), (''error'', JNull),
               (''width'', JNum ''1280''), (''height'', JNum ''720'')]))
     = [Fulfilled (JObj [(''width'', JNum ''1280''), (''height'', JNum ''720'')])]"
proof -
  have pend: "map_of (pendingPromises pendingX) ''X'' = Some 0"
    and live: "0 < length (promises pendingX)" "promises pendingX ! 0 = Pending"
    and X: "''X'' \<noteq> []"
    by (simp_all add: pendingX_eq)
  note main = reply_without_error_resolves [OF pend live X, of exampleUuid]
  let ?kvs = "[(''message'', JStr ''done''), (''id'', JStr ''X''), (''error'', JNull),
               (''width'', JNum ''1280''), (''height'', JNum ''720'')]"
  have a: "promises (handleMessage pendingX exampleUuid (JObj [(''id'', JStr ''X''), (''value'', JNum ''42'')]))
     = [Fulfilled (JObj [(''value'', JNum ''42'')])]"
    using main pendingX_eq(2) by simp
  have kvs: "map_of ?kvs ''id'' = Some (JStr ''X'') \<and> \<not> truthy (getField (JObj ?kvs) ''error'')"
    by (simp add: getField_def)
  with main have "promises (handleMessage pendingX exampleUuid (JObj ?kvs))
      = (promises pendingX)[0 := Fulfilled
            (JObj (filter (\<lambda>kv. fst kv \<notin> {''id'', ''message'', ''error''}) ?kvs))]"
    by blast
  then have b: "promises (handleMessage pendingX exampleUuid (JObj ?kvs))
     = [Fulfilled (JObj [(''width'', JNum ''1280''), (''height'', JNum ''720'')])]"
    by (simp add: pendingX_eq)
  from a b show ?thesis by (intro conjI)
qed

text \<open>
  C7. A payload that is falsy or not of type object is dropped (\<open>handleMessage_dropped\<close>),
  and a reply whose identifier is not in the pending table leaves the table, the
  \<open>ready\<close> flag, the state mirror and every future as they were and calls no hook
  (\<open>handleMessage_unmatched_frame\<close>). It is not always dropped silently: the table is
  a plain object, so an identifier that names a property of \<open>Object.prototype\<close> finds
  that property, and the call of its missing \<open>resolve\<close> method throws (as does the
  lookup itself for an identifier that does not convert to a string,
  \<open>handleMessage_unconvertible_id\<close>). Here the ready instance receives the reply
  \<open>{id: "constructor"}\<close>, which matches no pending command.
\<close>

theorem reply_named_constructor_throws:
  "map_of (pendingPromises readyRenderer) ''constructor'' = None
   \<and> handleMessage readyRenderer exampleUuid (JObj [(''id'', JStr ''constructor'')])
       = readyRenderer\<lparr>effects := effects readyRenderer @
            [Uncaught (TypeError ''pendingPromise.resolve is not a function'')]\<rparr>"
proof -
  let ?d = "JObj [(''id'', JStr ''constructor'')]"
  have none: "map_of (pendingPromises readyRenderer) ''constructor'' = None"
    by (simp add: readyRenderer_eq exampleUuid_def)
  have d: "truthy ?d" "typeofObject ?d" "truthy (getField ?d ''id'')"
    and i: "toStr (getField ?d ''id'') = Inr ''constructor''"
    and e: "\<not> truthy (getField ?d ''error'')"
    by (simp_all add: getField_def)
  have inh: "''constructor'' \<in> set objectPrototypeKeys"
    by (simp add: objectPrototypeKeys_def)
  have "handleMessage readyRenderer exampleUuid ?d
       = readyRenderer\<lparr>effects := effects readyRenderer @
            [Uncaught (TypeError ''pendingPromise.resolve is not a function'')]\<rparr>"
    unfolding handleMessage_unmatched [OF d i none] using inh e
    by (simp only: if_True if_False uncaught_def)
  with none show ?thesis by (intro conjI)
qed

theorem reply_named_constructor_throws_witness:
  "effects (handleMessage readyRenderer exampleUuid (JObj [(''id'', JStr ''constructor'')]))
     = effects readyRenderer @ [Uncaught (TypeError ''pendingPromise.resolve is not a function'')]"
  using reply_named_constructor_throws by simp

section \<open>Events\<close>

text \<open>
  C6, as stated, says that an event whose name is unregistered has no observable
  effect. An event name is registered by assigning its hook. On an instance with no
  \<open>onStateChange\<close> hook, the event \<open>onStateChange\<close> still replaces the state
  mirror (as \<open>onReady\<close> without a hook still sets \<open>ready\<close> and sends \<open>setMode\<close>).
\<close>

theorem onStateChange_without_hook_changes_state:
  "\<not> hookAssigned OnStateChange (newRenderer True Player ''public-token'')
   \<and> state (newRenderer True Player ''public-token'') = JUndefined
   \<and> state (handleMessage (newRenderer True Player ''public-token'') exampleUuid
               (JObj [(''message'', JStr ''onStateChange''),
                      (''state'', JObj [(''width'', JNum ''1280'')])]))
       = JObj [(''width'', JNum ''1280'')]"
  by (simp add: handleMessage_def handleEvent_def getField_def restFields_def newRenderer_def Let_def)

text \<open>
  C6, amended. A payload that carries no identifier (its \<open>id\<close> is absent or falsy) is
  an event. The event \<open>{message: "onPlay"}\<close>, and every event named \<open>onPlay\<close>, calls
  the assigned \<open>onPlay\<close> hook once, with no arguments, and changes nothing else. An
  event whose name is none of the names of the \<open>switch\<close> changes nothing and calls no
  hook, and so does an event whose name is known, is neither \<open>onReady\<close> nor
  \<open>onStateChange\<close>, and whose hook is not assigned. The event \<open>onStateChange\<close>
  without a hook replaces the state mirror and does nothing else; the event \<open>onReady\<close>
  without a hook sets \<open>ready\<close> and sends the \<open>setMode\<close> command (registers its future,
  and posts it when the iframe has a window).
\<close>

theorem event_dispatch:
  assumes d: "truthy d" "typeofObject d" "\<not> truthy (getField d ''id'')"
  shows "(onPlay r \<longrightarrow>
            handleMessage r u (JObj [(''message'', JStr ''onPlay'')])
              = r\<lparr>effects := effects r @ [Invoke OnPlay [] (rendererFields.truncate r)]\<rparr>)
     \<and> (getField d ''message'' = JStr ''onPlay'' \<and> onPlay r \<longrightarrow>
            handleMessage r u d
              = r\<lparr>effects := effects r @ [Invoke OnPlay [] (rendererFields.truncate r)]\<rparr>)
     \<and> (callbackNamed (getField d ''message'') = None \<longrightarrow> handleMessage r u d = r)
     \<and> (\<forall>c. callbackNamed (getField d ''message'') = Some c
              \<and> c \<noteq> OnReady \<and> c \<noteq> OnStateChange \<and> \<not> hookAssigned c r
           \<longrightarrow> handleMessage r u d = r)
     \<and> (getField d ''message'' = JStr ''onStateChange'' \<and> \<not> onStateChange r \<longrightarrow>
            handleMessage r u d = r\<lparr>state := getField (restFields d) ''state''\<rparr>)
     \<and> (getField d ''message'' = JStr ''onReady'' \<and> \<not> onReady r \<longrightarrow>
            handleMessage r u d
              = r\<lparr>ready := True,
                  effects := effects r @
                    (if contentWindow r
                     then [PostMessage (JObj [(''id'', JStr u), (''message'', JStr ''setMode''),
                                              (''mode'', JStr (modeName (mode r)))])]
                     else []),
                  promises := promises r @ [Pending],
                  pendingPromises := AList.update u (length (promises r)) (pendingPromises r)\<rparr>)"
proof -
  have event: "handleMessage r u d = handleEvent r u (getField d ''message'') (restFields d)"
    using d by (rule handleMessage_event)
  have literal: "onPlay r \<longrightarrow>
            handleMessage r u (JObj [(''message'', JStr ''onPlay'')])
              = r\<lparr>effects := effects r @ [Invoke OnPlay [] (rendererFields.truncate r)]\<rparr>"
    by (simp add: handleMessage_def handleEvent_def invoke_def getField_def Let_def)
  have play: "getField d ''message'' = JStr ''onPlay'' \<and> onPlay r \<longrightarrow>
            handleMessage r u d
              = r\<lparr>effects := effects r @ [Invoke OnPlay [] (rendererFields.truncate r)]\<rparr>"
    by (simp add: event handleEvent_def invoke_def)
  have unknown: "callbackNamed (getField d ''message'') = None \<longrightarrow> handleMessage r u d = r"
    by (simp add: event handleEvent_unknown)
  have idle: "\<forall>c. callbackNamed (getField d ''message'') = Some c
              \<and> c \<noteq> OnReady \<and> c \<noteq> OnStateChange \<and> \<not> hookAssigned c r
           \<longrightarrow> handleMessage r u d = r"
    unfolding event by (intro allI impI, elim conjE) (rule handleEvent_no_hook)
  have mirror: "getField d ''message'' = JStr ''onStateChange'' \<and> \<not> onStateChange r \<longrightarrow>
            handleMessage r u d = r\<lparr>state := getField (restFields d) ''state''\<rparr>"
    by (simp add: event handleEvent_def Let_def)
  have announce: "getField d ''message'' = JStr ''onReady'' \<and> \<not> onReady r \<longrightarrow>
            handleMessage r u d
              = r\<lparr>ready := True,
                  effects := effects r @
                    (if contentWindow r
                     then [PostMessage (JObj [(''id'', JStr u), (''message'', JStr ''setMode''),
                                              (''mode'', JStr (modeName (mode r)))])]
                     else []),
                  promises := promises r @ [Pending],
                  pendingPromises := AList.update u (length (promises r)) (pendingPromises r)\<rparr>"
    by (simp add: event handleEvent_onReady Let_def)
  from literal play unknown idle mirror announce show ?thesis
    by (intro conjI)
qed

theorem event_dispatch_witness:
  "handleMessage readyRenderer exampleUuid (JObj [(''message'', JStr ''onPlay'')])
     = readyRenderer\<lparr>effects := effects readyRenderer
                        @ [Invoke OnPlay [] (rendererFields.truncate readyRenderer)]\<rparr>
   \<and> handleMessage readyRenderer exampleUuid (JObj [(''message'', JStr ''onPlay''), (''id'', JNull)])
     = readyRenderer\<lparr>effects := effects readyRenderer
                        @ [Invoke OnPlay [] (rendererFields.truncate readyRenderer)]\<rparr>
   \<and> handleMessage readyRenderer exampleUuid (JObj [(''message'', JStr ''onResize'')])
     = readyRenderer
   \<and> handleMessage readyRenderer exampleUuid (JObj [(''message'', JStr ''onPause'')])
     = readyRenderer
   \<and> handleMessage readyRenderer exampleUuid
        (JObj [(''message'', JStr ''onStateChange''), (''state'', JNum ''1'')])
     = readyRenderer\<lparr>state := JNum ''1''\<rparr>
   \<and> handleMessage (newRenderer True Player ''public-token'') exampleUuid
        (JObj [(''message'', JStr ''onReady'')])
     = (newRenderer True Player ''public-token'')
         \<lparr>ready := True,
          effects := [PostMessage (JObj [(''id'', JStr exampleUuid), (''message'', JStr ''setMode''),
                                         (''mode'', JStr ''player'')])],
          promises := [Pending],
          pendingPromises := [(exampleUuid, 0)]\<rparr>"
proof -
  let ?d = "JObj [(''message'', JStr ''onPlay''), (''id'', JNull)]"
  let ?e = "JObj [(''message'', JStr ''onResize'')]"
  let ?f = "JObj [(''message'', JStr ''onPause'')]"
  let ?g = "JObj [(''message'', JStr ''onStateChange''), (''state'', JNum ''1'')]"
  let ?h = "JObj [(''message'', JStr ''onReady'')]"
  let ?n = "newRenderer True Player ''public-token''"
  have hook: "onPlay readyRenderer" and nohook: "\<not> hookAssigned OnPause readyRenderer"
    and nomirror: "\<not> onStateChange readyRenderer"
    by (simp_all add: readyRenderer_eq newRenderer_def)
  have d: "truthy ?d" "typeofObject ?d" "\<not> truthy (getField ?d ''id'')"
    and dm: "getField ?d ''message'' = JStr ''onPlay''"
    by (simp_all add: getField_def)
  have e: "truthy ?e" "typeofObject ?e" "\<not> truthy (getField ?e ''id'')"
    and em: "callbackNamed (getField ?e ''message'') = None"
    by (simp_all add: getField_def callbackNamed_def eventCallbacks_def)
  have f: "truthy ?f" "typeofObject ?f" "\<not> truthy (getField ?f ''id'')"
    and fm: "callbackNamed (getField ?f ''message'') = Some OnPause"
    by (simp_all add: getField_def callbackNamed_def eventCallbacks_def)
  have g: "truthy ?g" "typeofObject ?g" "\<not> truthy (getField ?g ''id'')"
    and gm: "getField ?g ''message'' = JStr ''onStateChange''"
    and gs: "getField (restFields ?g) ''state'' = JNum ''1''"
    by (simp_all add: getField_def restFields_def)
  have h: "truthy ?h" "typeofObject ?h" "\<not> truthy (getField ?h ''id'')"
    and hm: "getField ?h ''message'' = JStr ''onReady''"
    and hn: "\<not> onReady ?n"
    by (simp_all add: getField_def newRenderer_def)
  note at_d = event_dispatch [OF d, of readyRenderer exampleUuid]
  note at_e = event_dispatch [OF e, of readyRenderer exampleUuid]
  note at_f = event_dispatch [OF f, of readyRenderer exampleUuid]
  note at_g = event_dispatch [OF g, of readyRenderer exampleUuid]
  note at_h = event_dispatch [OF h, of ?n exampleUuid]
  from at_d [THEN conjunct1] hook
  have a: "handleMessage readyRenderer exampleUuid (JObj [(''message'', JStr ''onPlay'')])
     = readyRenderer\<lparr>effects := effects readyRenderer
                        @ [Invoke OnPlay [] (rendererFields.truncate readyRenderer)]\<rparr>"
    by (rule mp)
  from at_d [THEN conjunct2, THEN conjunct1] conjI [OF dm hook]
  have b: "handleMessage readyRenderer exampleUuid ?d
     = readyRenderer\<lparr>effects := effects readyRenderer
                        @ [Invoke OnPlay [] (rendererFields.truncate readyRenderer)]\<rparr>"
    by (rule mp)
  from at_e [THEN conjunct2, THEN conjunct2, THEN conjunct1] em
  have c: "handleMessage readyRenderer exampleUuid ?e = readyRenderer"
    by (rule mp)
  have pause: "callbackNamed (getField ?f ''message'') = Some OnPause
              \<and> OnPause \<noteq> OnReady \<and> OnPause \<noteq> OnStateChange
              \<and> \<not> hookAssigned OnPause readyRenderer"
    using fm nohook by simp
  from at_f [THEN conjunct2, THEN conjunct2, THEN conjunct2, THEN conjunct1, THEN spec, of OnPause]
    pause
  have i: "handleMessage readyRenderer exampleUuid ?f = readyRenderer"
    by (rule mp)
  from at_g [THEN conjunct2, THEN conjunct2, THEN conjunct2, THEN conjunct2, THEN conjunct1]
    conjI [OF gm nomirror]
  have "handleMessage readyRenderer exampleUuid ?g
          = readyRenderer\<lparr>state := getField (restFields ?g) ''state''\<rparr>"
    by (rule mp)
  then have j: "handleMessage readyRenderer exampleUuid ?g = readyRenderer\<lparr>state := JNum ''1''\<rparr>"
    by (simp only: gs)
  from at_h [THEN conjunct2, THEN conjunct2, THEN conjunct2, THEN conjunct2, THEN conjunct2]
    conjI [OF hm hn]
  have "handleMessage ?n exampleUuid ?h
     = ?n\<lparr>ready := True,
          effects := effects ?n @
            (if contentWindow ?n
             then [PostMessage (JObj [(''id'', JStr exampleUuid), (''message'', JStr ''setMode''),
                                      (''mode'', JStr (modeName (mode ?n)))])]
             else []),
          promises := promises ?n @ [Pending],
          pendingPromises := AList.update exampleUuid (length (promises ?n)) (pendingPromises ?n)\<rparr>"
    by (rule mp)
  then have k: "handleMessage ?n exampleUuid ?h
     = ?n\<lparr>ready := True,
          effects := [PostMessage (JObj [(''id'', JStr exampleUuid), (''message'', JStr ''setMode''),
                                         (''mode'', JStr ''player'')])],
          promises := [Pending],
          pendingPromises := [(exampleUuid, 0)]\<rparr>"
    by (simp add: newRenderer_def)
  from a b c i j k show ?thesis by (intro conjI)
qed

text \<open>
  C9, as stated, says that a command is always transmitted on readiness. The send is
  \<open>contentWindow?.postMessage\<close>: an instance whose container is not part of the
  document has an iframe without a window, and processing \<open>onReady\<close> there sets
  \<open>ready\<close> and posts nothing.
\<close>

theorem onReady_without_window_posts_nothing:
  "ready (handleMessage (newRenderer False Player ''public-token'') exampleUuid
            (JObj [(''message'', JStr ''onReady'')]))
   \<and> effects (handleMessage (newRenderer False Player ''public-token'') exampleUuid
                (JObj [(''message'', JStr ''onReady'')])) = []"
  by (simp add: handleMessage_def handleEvent_def setMode_def sendCommand_def getField_def
        newRenderer_def Let_def)

text \<open>
  C9, amended. In every state an instance reaches from its constructor, processing an
  \<open>onReady\<close> event sets \<open>ready\<close>, then sends a \<open>setMode\<close> command carrying the mode
  given to the constructor (its future is registered under the fresh identifier, and
  the message is posted to the embed when the iframe has a window), and only then calls
  the \<open>onReady\<close> hook if one is assigned: the hook is the last effect, and the instance
  it finds has \<open>ready\<close> set and holds the pending future of \<open>setMode\<close>. Nothing else
  changes.
\<close>

theorem onReady_sends_setMode:
  assumes d: "truthy d" "typeofObject d" "\<not> truthy (getField d ''id'')"
    and m: "getField d ''message'' = JStr ''onReady''"
    and reach: "r = run (newRenderer connected m0 token) acts"
  shows "let after = r\<lparr>ready := True,
                        promises := promises r @ [Pending],
                        pendingPromises :=
                          AList.update u (length (promises r)) (pendingPromises r)\<rparr>;
             post = (if contentWindow r
                     then [PostMessage (JObj [(''id'', JStr u), (''message'', JStr ''setMode''),
                                              (''mode'', JStr (modeName m0))])]
                     else []);
             seen = rendererFields.truncate after
         in handleMessage r u d
              = after\<lparr>effects := effects r @ post
                                 @ (if onReady r then [Invoke OnReady [] seen] else [])\<rparr>
            \<and> ready seen
            \<and> map_of (pendingPromises seen) u = Some (length (promises r))
            \<and> promises seen = promises r @ [Pending]"
proof -
  have mode: "mode r = m0"
    by (simp add: reach mode_run mode_new)
  have "handleMessage r u d = handleEvent r u (JStr ''onReady'') (restFields d)"
    using handleMessage_event [OF d, of r u] m by simp
  then show ?thesis
    by (simp add: handleEvent_onReady Let_def invoke_def mode rendererFields.truncate_def
          update_conv')
qed

theorem onReady_sends_setMode_witness:
  "handleMessage (run (newRenderer True Interactive ''public-token'') [Assign OnReady True])
      exampleUuid (JObj [(''message'', JStr ''onReady'')])
    = (newRenderer True Interactive ''public-token'')
        \<lparr>onReady := True, ready := True,
         promises := [Pending],
         pendingPromises := [(exampleUuid, 0)],
         effects := [PostMessage (JObj [(''id'', JStr exampleUuid), (''message'', JStr ''setMode''),
                                        (''mode'', JStr ''interactive'')]),
                     Invoke OnReady []
                       (rendererFields.truncate
                          ((newRenderer True Interactive ''public-token'')
                             \<lparr>onReady := True, ready := True, promises := [Pending],
                              pendingPromises := [(exampleUuid, 0)]\<rparr>))]\<rparr>
   \<and> ready (rendererFields.truncate
               ((newRenderer True Interactive ''public-token'')
                  \<lparr>onReady := True, ready := True, promises := [Pending],
                   pendingPromises := [(exampleUuid, 0)]\<rparr>))"
proof -
  let ?d = "JObj [(''message'', JStr ''onReady'')]"
  let ?r = "run (newRenderer True Interactive ''public-token'') [Assign OnReady True]"
  have d: "truthy ?d" "typeofObject ?d" "\<not> truthy (getField ?d ''id'')"
    and m: "getField ?d ''message'' = JStr ''onReady''"
    by (simp_all add: getField_def)
  have r: "?r = (newRenderer True Interactive ''public-token'')\<lparr>onReady := True\<rparr>"
    by (simp add: run_def)
  have reach: "?r = run (newRenderer True Interactive ''public-token'') [Assign OnReady True]"
    by (rule refl)
  note main = onReady_sends_setMode [OF d m reach, where u = exampleUuid]
  from main have eq: "handleMessage ?r exampleUuid ?d
     = ?r\<lparr>ready := True, promises := promises ?r @ [Pending],
           pendingPromises := AList.update exampleUuid (length (promises ?r)) (pendingPromises ?r),
           effects := effects ?r
             @ (if contentWindow ?r
                then [PostMessage (JObj [(''id'', JStr exampleUuid), (''message'', JStr ''setMode''),
                                         (''mode'', JStr (modeName Interactive))])]
                else [])
             @ (if onReady ?r
                then [Invoke OnReady []
                        (rendererFields.truncate
                           (?r\<lparr>ready := True, promises := promises ?r @ [Pending],
                               pendingPromises :=
                                 AList.update exampleUuid (length (promises ?r))
                                   (pendingPromises ?r)\<rparr>))]
                else [])\<rparr>"
    by (simp only: Let_def)
  show ?thesis
    unfolding eq unfolding r by (simp add: newRenderer_def rendererFields.truncate_def)
qed

section \<open>Teardown\<close>

text \<open>
  C8. \<open>dispose\<close> removes the message listener and the iframe and empties the pending
  table; the store of futures is the same after it as before, so every future that was
  pending is still pending, and nothing is posted or called. A message that arrives
  afterwards is not handled.
\<close>

theorem dispose_leaves_futures:
  "listening (dispose r) = False
   \<and> iframeParent (dispose r) = False
   \<and> contentWindow (dispose r) = False
   \<and> pendingPromises (dispose r) = []
   \<and> promises (dispose r) = promises r
   \<and> effects (dispose r) = effects r
   \<and> deliver (dispose r) u d = dispose r"
  by (simp add: dispose_def deliver_def)

theorem dispose_leaves_futures_witness:
  "promises readyRenderer = [Pending]
   \<and> pendingPromises (dispose readyRenderer) = []
   \<and> promises (dispose readyRenderer) = [Pending]
   \<and> deliver (dispose readyRenderer) exampleUuid (JObj [(''id'', JStr exampleUuid)])
       = dispose readyRenderer"
proof -
  have store: "promises readyRenderer = [Pending]" by (simp add: readyRenderer_eq)
  note main = dispose_leaves_futures [of readyRenderer exampleUuid "JObj [(''id'', JStr exampleUuid)]"]
  from main have a: "pendingPromises (dispose readyRenderer) = []"
    and b: "promises (dispose readyRenderer) = promises readyRenderer"
    and c: "deliver (dispose readyRenderer) exampleUuid (JObj [(''id'', JStr exampleUuid)])
       = dispose readyRenderer"
    by blast+
  from store a b c show ?thesis by simp
qed

section \<open>Searching the element tree\<close>

text \<open>
  C5. \<open>findElement\<close> returns the first element of the depth-first preorder of the
  elements below the given state for which the predicate holds, and \<open>undefined\<close> when
  it holds for none of them or no state is given. In the snapshot where A holds B and C,
  and C holds D, the preorder is A, B, C, D; a predicate that matches only D yields D
  and a predicate that matches nothing yields \<open>undefined\<close>.
\<close>

theorem findElement_first_in_preorder:
  "findElement predicate None = None
   \<and> findElement predicate (Some st) = List.find predicate (preorderElements st)
   \<and> (findElement predicate (Some st) = Some e \<longleftrightarrow>
        (\<exists>i < length (preorderElements st).
            predicate (preorderElements st ! i) \<and> e = preorderElements st ! i
            \<and> (\<forall>j < i. \<not> predicate (preorderElements st ! j))))
   \<and> (findElement predicate (Some st) = None \<longleftrightarrow>
        (\<forall>e \<in> set (preorderElements st). \<not> predicate e))
   \<and> preorderElements exampleSnapshot =
        [ElementState ''A'' (Some [ElementState ''B'' None,
                                   ElementState ''C'' (Some [ElementState ''D'' None])]),
         ElementState ''B'' None,
         ElementState ''C'' (Some [ElementState ''D'' None]),
         ElementState ''D'' None]
   \<and> findElement (\<lambda>e. props e = ''D'') (Some exampleSnapshot) = Some (ElementState ''D'' None)
   \<and> findElement (\<lambda>e. False) (Some exampleSnapshot) = None"
proof -
  have first: "findElement predicate (Some st) = Some e \<longleftrightarrow>
        (\<exists>i < length (preorderElements st).
            predicate (preorderElements st ! i) \<and> e = preorderElements st ! i
            \<and> (\<forall>j < i. \<not> predicate (preorderElements st ! j)))"
    by (simp add: findElement_find find_Some_iff)
  have none: "findElement predicate (Some st) = None \<longleftrightarrow>
        (\<forall>e \<in> set (preorderElements st). \<not> predicate e)"
    by (auto simp: findElement_find find_None_iff)
  have order: "preorderElements exampleSnapshot =
        [ElementState ''A'' (Some [ElementState ''B'' None,
                                   ElementState ''C'' (Some [ElementState ''D'' None])]),
         ElementState ''B'' None,
         ElementState ''C'' (Some [ElementState ''D'' None]),
         ElementState ''D'' None]"
    by (simp add: exampleSnapshot_def)
  have d: "findElement (\<lambda>e. props e = ''D'') (Some exampleSnapshot)
             = Some (ElementState ''D'' None)"
    by (simp add: exampleSnapshot_def)
  have n: "findElement (\<lambda>e. False) (Some exampleSnapshot) = None"
    by (simp add: exampleSnapshot_def)
  from first none order d n show ?thesis
    by (simp only: findElement.simps(1) findElement_find(1) simp_thms)
qed

theorem findElement_first_in_preorder_witness:
  "findElement (\<lambda>e. props e \<noteq> ''A'') (Some exampleSnapshot) = Some (ElementState ''B'' None)"
proof -
  note main = findElement_first_in_preorder
      [of "\<lambda>e. props e \<noteq> ''A''" exampleSnapshot "ElementState ''B'' None"]
  from main have find: "findElement (\<lambda>e. props e \<noteq> ''A'') (Some exampleSnapshot)
      = List.find (\<lambda>e. props e \<noteq> ''A'') (preorderElements exampleSnapshot)"
    and order: "preorderElements exampleSnapshot =
        [ElementState ''A'' (Some [ElementState ''B'' None,
                                   ElementState ''C'' (Some [ElementState ''D'' None])]),
         ElementState ''B'' None,
         ElementState ''C'' (Some [ElementState ''D'' None]),
         ElementState ''D'' None]"
    by blast+
  show ?thesis unfolding find order by simp
qed

text \<open>
  C10. The result of \<open>findElement\<close> depends on the predicate only through its values
  on the elements below the state passed in, and the state itself is never one of them:
  two predicates that agree below the state give the same result, and a predicate that
  holds for the state but for no element below it gives \<open>undefined\<close>.
\<close>

theorem findElement_never_tests_root:
  "((\<forall>e \<in> set (preorderElements st). q e = p e)
       \<longrightarrow> findElement q (Some st) = findElement p (Some st))
   \<and> (p st \<and> (\<forall>e \<in> set (preorderElements st). \<not> p e) \<longrightarrow> findElement p (Some st) = None)
   \<and> st \<notin> set (preorderElements st)"
proof -
  have cong: "findElement q (Some st) = findElement p (Some st)"
    if "\<forall>e \<in> set (preorderElements st). q e = p e"
    unfolding findElement_find using that by (intro find_cong) simp_all
  have none: "findElement p (Some st) = None" if "\<forall>e \<in> set (preorderElements st). \<not> p e"
    using that by (simp add: findElement_find find_None_iff)
  from cong none root_not_in_preorder [of st] show ?thesis by blast
qed

theorem findElement_never_tests_root_witness:
  "props exampleSnapshot = ''snapshot''
   \<and> findElement (\<lambda>e. props e = ''snapshot'') (Some exampleSnapshot) = None
   \<and> findElement (\<lambda>e. props e = ''snapshot'' \<or> props e = ''C'') (Some exampleSnapshot)
       = findElement (\<lambda>e. props e = ''C'') (Some exampleSnapshot)"
proof -
  have root: "props exampleSnapshot = ''snapshot''"
    by (simp add: exampleSnapshot_def)
  have order: "preorderElements exampleSnapshot =
        [ElementState ''A'' (Some [ElementState ''B'' None,
                                   ElementState ''C'' (Some [ElementState ''D'' None])]),
         ElementState ''B'' None,
         ElementState ''C'' (Some [ElementState ''D'' None]),
         ElementState ''D'' None]"
    by (simp add: exampleSnapshot_def)
  have inner: "\<forall>e \<in> set (preorderElements exampleSnapshot). \<not> props e = ''snapshot''"
    unfolding order by simp
  have same: "\<forall>e \<in> set (preorderElements exampleSnapshot).
                (props e = ''snapshot'' \<or> props e = ''C'') = (props e = ''C'')"
    unfolding order by simp
  from findElement_never_tests_root
         [of exampleSnapshot "\<lambda>e. props e = ''snapshot''" "\<lambda>e. props e = ''snapshot''"]
       root inner
  have a: "findElement (\<lambda>e. props e = ''snapshot'') (Some exampleSnapshot) = None"
    by blast
  from findElement_never_tests_root
         [of exampleSnapshot "\<lambda>e. props e = ''snapshot'' \<or> props e = ''C''"
             "\<lambda>e. props e = ''C''"]
       same
  have b: "findElement (\<lambda>e. props e = ''snapshot'' \<or> props e = ''C'') (Some exampleSnapshot)
       = findElement (\<lambda>e. props e = ''C'') (Some exampleSnapshot)"
    by blast
  from root a b show ?thesis by (intro conjI)
qed

end
